theory Spec2Isabelle
  imports Main "HOL-Library.AList" "HOL-Library.Char_ord" "HOL-Library.List_Lexorder"
    "HOL-Library.Multiset"
begin

section \<open>Data model of the Pivotal Tracker source\<close>

text \<open>
  Values decoded from JSON. A Python dict keeps its keys in insertion order, so an object
  is an association list (keys distinct); a lookup is \<open>map_of\<close>, an item assignment is
  \<open>AList.update\<close> (in place for a key that is there, at the end for a new one). Numbers
  are the integers; strings are byte strings (ASCII timestamps and header values).
\<close>

datatype json =
    JNull
  | JBool bool
  | JNum int
  | JStr string
  | JArr "json list"
  | JObj "(string \<times> json) list"

text \<open>The exceptions the source can meet, all of them instances of \<open>Exception\<close>;
  \<open>HTTPError\<close> stands for whatever the transport raises, with its message.\<close>

datatype error =
    KeyError
  | ValueError
  | TypeError
  | StopIteration
  | HTTPError string

type_synonym dict = "(string \<times> json) list"

text \<open>A generator that is drained: what it yielded, and the exception that ended it, if any.\<close>

type_synonym 'a gen = "'a list \<times> error option"

subsection \<open>Python built-ins the source calls\<close>

text \<open>
  \<open>int(s)\<close> on a string, base 10, for the Latin-1 strings header values are: surrounding
  whitespace is dropped (tab, line feed, vertical tab, form feed, carriage return, space,
  next line and no-break space; the separators \<open>0x1C\<close> to \<open>0x1F\<close> are not skipped), then an
  optional sign, then decimal digits in which a single underscore may stand between two
  digits. Anything else is a \<open>ValueError\<close>.
\<close>

definition py_isspace :: "char \<Rightarrow> bool" where
  "py_isspace c = ((of_char c :: nat) \<in> set [9, 10, 11, 12, 13, 32, 133, 160])"

definition strip :: "string \<Rightarrow> string" where
  "strip s = rev (dropWhile py_isspace (rev (dropWhile py_isspace s)))"

definition digit_of :: "char \<Rightarrow> nat option" where
  "digit_of c =
     (let n = (of_char c :: nat) in if 48 \<le> n \<and> n \<le> 57 then Some (n - 48) else None)"

fun digits_val :: "nat \<Rightarrow> string \<Rightarrow> nat option" where
  "digits_val acc [] = Some acc"
| "digits_val acc (c # cs) =
     (if c = CHR ''_'' then
        (case cs of
           [] \<Rightarrow> None
         | d # ds \<Rightarrow>
             (case digit_of d of
                None \<Rightarrow> None
              | Some v \<Rightarrow> digits_val (10 * acc + v) ds))
      else
        (case digit_of c of
           None \<Rightarrow> None
         | Some v \<Rightarrow> digits_val (10 * acc + v) cs))"

definition nat_literal :: "string \<Rightarrow> nat option" where
  "nat_literal s =
     (case s of
        [] \<Rightarrow> None
      | c # cs \<Rightarrow> (case digit_of c of None \<Rightarrow> None | Some v \<Rightarrow> digits_val v cs))"

definition py_int :: "string \<Rightarrow> error + int" where
  "py_int s =
     (case strip s of
        [] \<Rightarrow> Inl ValueError
      | c # cs \<Rightarrow>
          if c = CHR ''-'' then
            (case nat_literal cs of None \<Rightarrow> Inl ValueError | Some n \<Rightarrow> Inr (- int n))
          else if c = CHR ''+'' then
            (case nat_literal cs of None \<Rightarrow> Inl ValueError | Some n \<Rightarrow> Inr (int n))
          else
            (case nat_literal (c # cs) of None \<Rightarrow> Inl ValueError | Some n \<Rightarrow> Inr (int n)))"

text \<open>\<open>d[k]\<close>: a missing key of a dict is a \<open>KeyError\<close>; a string key into anything else is a
  \<open>TypeError\<close>.\<close>

fun py_getitem :: "json \<Rightarrow> string \<Rightarrow> error + json" where
  "py_getitem (JObj kv) k = (case map_of kv k of None \<Rightarrow> Inl KeyError | Some v \<Rightarrow> Inr v)"
| "py_getitem _ k = Inl TypeError"

text \<open>\<open>d[k] = v\<close>, returning the updated value.\<close>

fun py_setitem :: "json \<Rightarrow> string \<Rightarrow> json \<Rightarrow> error + json" where
  "py_setitem (JObj kv) k v = Inr (JObj (AList.update k v kv))"
| "py_setitem _ k v = Inl TypeError"

text \<open>Whether string \<open>p\<close> occurs in string \<open>s\<close> (Python's \<open>p in s\<close> on strings).\<close>

fun occurs_in :: "string \<Rightarrow> string \<Rightarrow> bool" where
  "occurs_in p [] = (p = [])"
| "occurs_in p (c # cs) = (take (length p) (c # cs) = p \<or> occurs_in p cs)"

text \<open>\<open>k in x\<close> for a string \<open>k\<close>: key membership on a dict, element membership on a list,
  substring on a string, a \<open>TypeError\<close> on a number, a boolean or \<open>None\<close>.\<close>

fun py_contains :: "json \<Rightarrow> string \<Rightarrow> error + bool" where
  "py_contains (JObj kv) k = Inr (k \<in> set (map fst kv))"
| "py_contains (JArr xs) k = Inr (JStr k \<in> set xs)"
| "py_contains (JStr s) k = Inr (occurs_in k s)"
| "py_contains _ k = Inl TypeError"

text \<open>Iterating a decoded JSON value: the elements of a list, the keys of a dict, the
  characters of a string; the rest is not iterable.\<close>

fun py_iter :: "json \<Rightarrow> error + json list" where
  "py_iter (JArr xs) = Inr xs"
| "py_iter (JObj kv) = Inr (map (\<lambda>p. JStr (fst p)) kv)"
| "py_iter (JStr s) = Inr (map (\<lambda>c. JStr [c]) s)"
| "py_iter _ = Inl TypeError"

section \<open>PivotalTrackerStream\<close>

text \<open>
  What the stream reads of an HTTP response: the headers, a lookup by header name (the
  map stands for the lookup \<open>requests\<close> performs, which ignores the case of the name), and
  the result of \<open>response.json()\<close> (the decoded body, or the exception decoding raised).
\<close>

record response =
  headers :: "string \<rightharpoonup> string"
  json_body :: "error + json"

text \<open>\<open>int(headers[name])\<close>.\<close>

definition header_int :: "(string \<rightharpoonup> string) \<Rightarrow> string \<Rightarrow> error + int" where
  "header_int h name = (case h name of None \<Rightarrow> Inl KeyError | Some s \<Rightarrow> py_int s)"

definition next_page_token :: "response \<Rightarrow> error + dict option" where
  "next_page_token resp =
     (let h = headers resp in
      if h ''X-Tracker-Pagination-Total'' = None then Inr None
      else
        (case header_int h ''X-Tracker-Pagination-Limit'' of
           Inl e \<Rightarrow> Inl e
         | Inr page_size \<Rightarrow>
             (case header_int h ''X-Tracker-Pagination-Returned'' of
                Inl e \<Rightarrow> Inl e
              | Inr records_returned \<Rightarrow>
                  (case header_int h ''X-Tracker-Pagination-Offset'' of
                     Inl e \<Rightarrow> Inl e
                   | Inr current_offset \<Rightarrow>
                       if records_returned < page_size then Inr None
                       else Inr (Some [(''offset'', JNum (current_offset + page_size))])))))"

text \<open>The state a stream persists between syncs: cursor field name to timestamp string.\<close>

type_synonym cursor_state = "(string \<times> string) list"

text \<open>The base \<open>request_params\<close>: the offset of a continuation request, when the token is
  truthy (neither \<open>None\<close> nor an empty dict). The stream state and the slice are not read.\<close>

definition request_params :: "cursor_state \<Rightarrow> dict option \<Rightarrow> dict option \<Rightarrow> error + dict" where
  "request_params stream_state stream_slice next_token =
     (case next_token of
        None \<Rightarrow> Inr []
      | Some tok \<Rightarrow>
          if tok = [] then Inr []
          else
            (case py_getitem (JObj tok) ''offset'' of
               Inl e \<Rightarrow> Inl e
             | Inr off \<Rightarrow> Inr (AList.update ''offset'' off [])))"

text \<open>The base \<open>parse_response\<close>: every element of the decoded body, in order.\<close>

definition parse_response :: "response \<Rightarrow> json gen" where
  "parse_response resp =
     (case json_body resp of
        Inl e \<Rightarrow> ([], Some e)
      | Inr body \<Rightarrow> (case py_iter body of Inl e \<Rightarrow> ([], Some e) | Inr xs \<Rightarrow> (xs, None)))"

section \<open>ProjectBasedStream\<close>

text \<open>\<open>stream_slices\<close>: one slice per project id of the stream, as the loop yields them.\<close>

primrec stream_slices :: "json list \<Rightarrow> dict list" where
  "stream_slices [] = []"
| "stream_slices (project_id # rest) = [(''project_id'', project_id)] # stream_slices rest"

section \<open>IncrementalPivotalStream\<close>

text \<open>The two incremental streams; \<open>Activity\<close> overrides the cursor field and filter.\<close>

datatype incremental_stream = Stories | Activity

fun cursor_field :: "incremental_stream \<Rightarrow> string" where
  "cursor_field Stories = ''updated_at''"
| "cursor_field Activity = ''occurred_at''"

fun cursor_filter :: "incremental_stream \<Rightarrow> string" where
  "cursor_filter Stories = ''updated_after''"
| "cursor_filter Activity = ''occurred_after''"

record incremental =
  kind :: incremental_stream
  project_ids :: "json list"
  cursor_value :: string

text \<open>The constructor: the watermark starts as the empty string.\<close>

definition init :: "incremental_stream \<Rightarrow> json list \<Rightarrow> incremental" where
  "init k pids = \<lparr> kind = k, project_ids = pids, cursor_value = [] \<rparr>"

text \<open>The \<open>state\<close> property: its getter tests the watermark's truthiness (a string is
  truthy when it is not empty); its setter reads the cursor field with the epoch default.\<close>

definition state :: "incremental \<Rightarrow> cursor_state" where
  "state s =
     (if cursor_value s \<noteq> [] then [(cursor_field (kind s), cursor_value s)] else [])"

definition state_setter :: "incremental \<Rightarrow> cursor_state \<Rightarrow> incremental" where
  "state_setter s v =
     s\<lparr> cursor_value :=
          (case map_of v (cursor_field (kind s)) of
             None \<Rightarrow> ''1970-01-01T00:00:00''
           | Some t \<Rightarrow> t) \<rparr>"

text \<open>\<open>request_params\<close> of an incremental stream: the base parameters, then the cursor
  filter, set to \<open>stream_state.get(cursor_field)\<close> (\<open>None\<close> when the key is missing).\<close>

definition incremental_request_params ::
    "incremental \<Rightarrow> cursor_state \<Rightarrow> dict option \<Rightarrow> dict option \<Rightarrow> error + dict" where
  "incremental_request_params s stream_state stream_slice next_token =
     (case request_params stream_state stream_slice next_token of
        Inl e \<Rightarrow> Inl e
      | Inr params \<Rightarrow>
          Inr (AList.update (cursor_filter (kind s))
                 (case map_of stream_state (cursor_field (kind s)) of
                    None \<Rightarrow> JNull
                  | Some t \<Rightarrow> JStr t)
                 params))"

text \<open>One step of the read loop after its \<open>yield\<close>:
  \<open>self._cursor_value = max(record[self.cursor_field], self._cursor_value)\<close>. The watermark
  is a string, and comparing a string with anything else is a \<open>TypeError\<close>.\<close>

definition advance :: "incremental \<Rightarrow> json \<Rightarrow> error + incremental" where
  "advance s record =
     (case py_getitem record (cursor_field (kind s)) of
        Inl e \<Rightarrow> Inl e
      | Inr (JStr t) \<Rightarrow> Inr (s\<lparr> cursor_value := max t (cursor_value s) \<rparr>)
      | Inr _ \<Rightarrow> Inl TypeError)"

text \<open>\<open>read_records\<close>, drained: each record of the underlying read is yielded, then the
  watermark advances; an exception of the step ends the pass after the record was yielded.\<close>

fun read_loop :: "incremental \<Rightarrow> json list \<Rightarrow> error option \<Rightarrow> json gen \<times> incremental" where
  "read_loop s [] fin = (([], fin), s)"
| "read_loop s (r # rs) fin =
     (case advance s r of
        Inl e \<Rightarrow> (([r], Some e), s)
      | Inr s' \<Rightarrow>
          (case read_loop s' rs fin of ((ys, e), s'') \<Rightarrow> ((r # ys, e), s'')))"

definition read_records :: "incremental \<Rightarrow> json gen \<Rightarrow> json gen \<times> incremental" where
  "read_records s upstream = read_loop s (fst upstream) (snd upstream)"

section \<open>Activity\<close>

text \<open>The body of the loop in \<open>Activity.parse_response\<close>.\<close>

definition lift_project_id :: "json \<Rightarrow> error + json" where
  "lift_project_id record =
     (case py_contains record ''project'' of
        Inl e \<Rightarrow> Inl e
      | Inr False \<Rightarrow> Inr record
      | Inr True \<Rightarrow>
          (case py_getitem record ''project'' of
             Inl e \<Rightarrow> Inl e
           | Inr project \<Rightarrow>
               (case py_getitem project ''id'' of
                  Inl e \<Rightarrow> Inl e
                | Inr i \<Rightarrow> py_setitem record ''project_id'' i)))"

fun activity_loop :: "json list \<Rightarrow> error option \<Rightarrow> json gen" where
  "activity_loop [] fin = ([], fin)"
| "activity_loop (r # rs) fin =
     (case lift_project_id r of
        Inl e \<Rightarrow> ([], Some e)
      | Inr r' \<Rightarrow> (case activity_loop rs fin of (ys, e) \<Rightarrow> (r' # ys, e)))"

definition activity_parse_response :: "response \<Rightarrow> json gen" where
  "activity_parse_response resp =
     (case parse_response resp of (records, fin) \<Rightarrow> activity_loop records fin)"

section \<open>SourcePivotalTracker\<close>

text \<open>
  The remote service as the source meets it, for a given authenticator (the token):
  the drained read of the \<open>Projects\<close> stream, and for a project id the result of
  \<open>next(project.read_records(...))\<close> on the \<open>Project\<close> stream: the first record, a
  \<open>StopIteration\<close> when there is none, or the exception the read raised.
\<close>

record api =
  projects_listing :: "json \<Rightarrow> json gen"
  project_probe :: "json \<Rightarrow> json \<Rightarrow> error + json"

text \<open>The effects of discovery: the errors handed to \<open>logger.error\<close> and the project ids
  probed, both in order.\<close>

record world =
  log :: "error list"
  probed :: "json list"

definition get_authenticator :: "dict \<Rightarrow> json" where
  "get_authenticator config =
     (case map_of config ''api_token'' of None \<Rightarrow> JNull | Some token \<Rightarrow> token)"

definition check_project_availability :: "api \<Rightarrow> json \<Rightarrow> json \<Rightarrow> world \<Rightarrow> bool \<times> world" where
  "check_project_availability srv auth project_id w =
     (case project_probe srv auth project_id of
        Inl err \<Rightarrow> (False, w\<lparr> log := log w @ [err], probed := probed w @ [project_id] \<rparr>)
      | Inr _ \<Rightarrow> (True, w\<lparr> probed := probed w @ [project_id] \<rparr>))"

fun generate_loop ::
    "api \<Rightarrow> json \<Rightarrow> json list \<Rightarrow> error option \<Rightarrow> json list \<Rightarrow> world \<Rightarrow> (error + json list) \<times> world" where
  "generate_loop srv auth [] None ids w = (Inr ids, w)"
| "generate_loop srv auth [] (Some e) ids w = (Inl e, w)"
| "generate_loop srv auth (record # records) fin ids w =
     (case py_getitem record ''id'' of
        Inl e \<Rightarrow> (Inl e, w)
      | Inr project_id \<Rightarrow>
          (case check_project_availability srv auth project_id w of
             (True, w') \<Rightarrow> generate_loop srv auth records fin (ids @ [project_id]) w'
           | (False, w') \<Rightarrow> generate_loop srv auth records fin ids w'))"

definition generate_project_ids :: "api \<Rightarrow> json \<Rightarrow> world \<Rightarrow> (error + json list) \<times> world" where
  "generate_project_ids srv auth w =
     (case projects_listing srv auth of (records, fin) \<Rightarrow> generate_loop srv auth records fin [] w)"

definition check_connection ::
    "api \<Rightarrow> dict \<Rightarrow> world \<Rightarrow> (error + bool \<times> error option) \<times> world" where
  "check_connection srv config w =
     (let auth = get_authenticator config in
      case generate_project_ids srv auth w of
        (Inl e, w') \<Rightarrow> (Inl e, w')
      | (Inr _, w') \<Rightarrow> (Inr (True, None), w'))"

section \<open>Concrete responses and records\<close>

text \<open>A page that carries the total, limit and returned headers but no offset header.\<close>

definition resp_no_offset :: response where
  "resp_no_offset =
     \<lparr> headers = map_of [(''X-Tracker-Pagination-Total'', ''10''),
         (''X-Tracker-Pagination-Limit'', ''2''), (''X-Tracker-Pagination-Returned'', ''1'')],
       json_body = Inr (JArr [JObj [(''id'', JNum 1)]]) \<rparr>"

text \<open>A response of an endpoint that does not paginate: no total header, the others as
  they come.\<close>

definition resp_unpaginated :: response where
  "resp_unpaginated =
     \<lparr> headers = map_of [(''X-Tracker-Pagination-Limit'', ''2''),
         (''X-Tracker-Pagination-Returned'', ''2''), (''X-Tracker-Pagination-Offset'', ''abc'')],
       json_body = Inr (JArr []) \<rparr>"

definition resp_last_page :: response where
  "resp_last_page =
     \<lparr> headers = map_of [(''X-Tracker-Pagination-Total'', ''5''),
         (''X-Tracker-Pagination-Limit'', ''2''), (''X-Tracker-Pagination-Returned'', ''1''),
         (''X-Tracker-Pagination-Offset'', ''4'')],
       json_body = Inr (JArr [JObj [(''id'', JNum 1)]]) \<rparr>"

definition resp_full_page :: response where
  "resp_full_page =
     \<lparr> headers = map_of [(''X-Tracker-Pagination-Total'', ''5''),
         (''X-Tracker-Pagination-Limit'', ''2''), (''X-Tracker-Pagination-Returned'', ''2''),
         (''X-Tracker-Pagination-Offset'', ''2'')],
       json_body = Inr (JArr [JObj [(''id'', JNum 1)], JObj [(''id'', JNum 2)]]) \<rparr>"

definition resp_total_only :: response where
  "resp_total_only =
     \<lparr> headers = map_of [(''X-Tracker-Pagination-Total'', ''5'')],
       json_body = Inr (JArr []) \<rparr>"

text \<open>Three listed projects, the second of which cannot be fetched.\<close>

definition api_three :: api where
  "api_three =
     \<lparr> projects_listing =
         (\<lambda>auth. ([JObj [(''id'', JNum 1), (''name'', JStr ''a'')], JObj [(''id'', JNum 2)],
                    JObj [(''id'', JNum 3)]], None)),
       project_probe =
         (\<lambda>auth project_id.
            if project_id = JNum 2 then Inl (HTTPError ''403 Forbidden'')
            else Inr (JStr ''id'')) \<rparr>"

text \<open>Two listed projects, neither accessible; and a listing that fails after one record.\<close>

definition api_none_accessible :: api where
  "api_none_accessible =
     \<lparr> projects_listing = (\<lambda>auth. ([JObj [(''id'', JNum 1)], JObj [(''id'', JNum 2)]], None)),
       project_probe =
         (\<lambda>auth project_id. if project_id = JNum 1 then Inl StopIteration
                              else Inl (HTTPError ''403 Forbidden'')) \<rparr>"

definition api_listing_fails :: api where
  "api_listing_fails =
     \<lparr> projects_listing = (\<lambda>auth. ([JObj [(''id'', JNum 1)]], Some (HTTPError ''500''))),
       project_probe = (\<lambda>auth project_id. Inr (JStr ''id'')) \<rparr>"

definition world0 :: world where
  "world0 = \<lparr> log = [], probed = [] \<rparr>"

definition config_token :: dict where
  "config_token = [(''api_token'', JStr ''secret'')]"

text \<open>The precondition the Activity parser relies on: the record is an object, and a
  \<open>project\<close> key, when there is one, holds a sub-object with an \<open>id\<close>.\<close>

fun activity_record :: "json \<Rightarrow> bool" where
  "activity_record (JObj kv) =
     (case map_of kv ''project'' of
        None \<Rightarrow> True
      | Some (JObj project) \<Rightarrow> map_of project ''id'' \<noteq> None
      | Some _ \<Rightarrow> False)"
| "activity_record _ = False"

text \<open>Activity pages: one well formed, one with a \<open>project\<close> that has no \<open>id\<close>, one with a
  \<open>project\<close> that is a number.\<close>

definition resp_activity :: response where
  "resp_activity =
     \<lparr> headers = Map.empty,
       json_body = Inr (JArr [JObj [(''id'', JNum 5), (''project'', JObj [(''id'', JNum 42)])],
                              JObj [(''id'', JNum 6)]]) \<rparr>"

definition resp_activity_no_id :: response where
  "resp_activity_no_id =
     \<lparr> headers = Map.empty,
       json_body = Inr (JArr [JObj [(''id'', JNum 5)],
                              JObj [(''id'', JNum 6), (''project'', JObj [(''name'', JStr ''x'')])],
                              JObj [(''id'', JNum 7)]]) \<rparr>"

definition resp_activity_not_mapping :: response where
  "resp_activity_not_mapping =
     \<lparr> headers = Map.empty,
       json_body = Inr (JArr [JObj [(''id'', JNum 6), (''project'', JNum 42)]]) \<rparr>"

text \<open>A page of stories whose \<open>updated_at\<close> values arrive out of order, and two stream
  states: a timestamp, and the empty string under the cursor field.\<close>

definition stories_page :: "json list" where
  "stories_page =
     [JObj [(''id'', JNum 11), (''updated_at'', JStr ''2022-02-01T00:00:00'')],
      JObj [(''id'', JNum 12), (''updated_at'', JStr ''2022-01-01T00:00:00'')],
      JObj [(''id'', JNum 13), (''updated_at'', JStr ''2022-03-01T00:00:00'')]]"

definition state_2022 :: cursor_state where
  "state_2022 = [(''updated_at'', ''2022-01-01T00:00:00'')]"

definition state_blank :: cursor_state where
  "state_blank = [(''updated_at'', [])]"


text \<open>Pages with the total header where a header read fails on its value: a limit that is
  not a number, an offset that is a decimal fraction, and a limit that starts with the
  file separator \<open>0x1C\<close>.\<close>

definition resp_limit_not_integer :: response where
  "resp_limit_not_integer =
     \<lparr> headers = map_of [(''X-Tracker-Pagination-Total'', ''5''),
         (''X-Tracker-Pagination-Limit'', ''abc''), (''X-Tracker-Pagination-Returned'', ''2''),
         (''X-Tracker-Pagination-Offset'', ''0'')],
       json_body = Inr (JArr []) \<rparr>"

definition resp_offset_not_integer :: response where
  "resp_offset_not_integer =
     \<lparr> headers = map_of [(''X-Tracker-Pagination-Total'', ''5''),
         (''X-Tracker-Pagination-Limit'', ''2''), (''X-Tracker-Pagination-Returned'', ''1''),
         (''X-Tracker-Pagination-Offset'', ''4.5'')],
       json_body = Inr (JArr []) \<rparr>"

definition resp_limit_separator :: response where
  "resp_limit_separator =
     \<lparr> headers = map_of [(''X-Tracker-Pagination-Total'', ''5''),
         (''X-Tracker-Pagination-Limit'', [CHR 0x1C, CHR ''1'']),
         (''X-Tracker-Pagination-Returned'', ''1''), (''X-Tracker-Pagination-Offset'', ''0'')],
       json_body = Inr (JArr []) \<rparr>"

text \<open>A stream state later than every record of \<open>stories_page\<close>, and a state of the
  Activity stream.\<close>

definition state_2023 :: cursor_state where
  "state_2023 = [(''updated_at'', ''2023-01-01T00:00:00'')]"

definition state_activity_2022 :: cursor_state where
  "state_activity_2022 = [(''occurred_at'', ''2022-01-01T00:00:00'')]"

text \<open>An Activity page whose first record is well formed and whose second has a
  \<open>project\<close> without \<open>id\<close>.\<close>

definition resp_activity_then_no_id :: response where
  "resp_activity_then_no_id =
     \<lparr> headers = Map.empty,
       json_body = Inr (JArr [JObj [(''id'', JNum 5), (''project'', JObj [(''id'', JNum 42)])],
                              JObj [(''id'', JNum 6), (''project'', JObj [(''name'', JStr ''x'')])],
                              JObj [(''id'', JNum 7)]]) \<rparr>"

section \<open>Pagination\<close>

lemmas py_int_simps = py_int_def strip_def py_isspace_def nat_literal_def digit_of_def

lemma next_page_token_present:
  assumes "headers resp ''X-Tracker-Pagination-Total'' \<noteq> None"
  shows "next_page_token resp =
     (case header_int (headers resp) ''X-Tracker-Pagination-Limit'' of
        Inl e \<Rightarrow> Inl e
      | Inr l \<Rightarrow>
          (case header_int (headers resp) ''X-Tracker-Pagination-Returned'' of
             Inl e \<Rightarrow> Inl e
           | Inr r \<Rightarrow>
               (case header_int (headers resp) ''X-Tracker-Pagination-Offset'' of
                  Inl e \<Rightarrow> Inl e
                | Inr off \<Rightarrow>
                    if r < l then Inr None else Inr (Some [(''offset'', JNum (off + l))]))))"
  using assms by (auto simp: next_page_token_def Let_def)

text \<open>
  C2, as amended. Without the total header \<open>next_page_token\<close> returns \<open>None\<close> whatever the
  other headers hold. With the total header, and with the limit, returned and offset
  headers all present and holding integers \<open>l\<close>, \<open>r\<close> and \<open>off\<close>: it returns \<open>None\<close> when
  \<open>r < l\<close>, and \<open>{offset: off + l}\<close> when \<open>r = l\<close>.
\<close>

theorem next_page_token_cases:
  "(headers resp ''X-Tracker-Pagination-Total'' = None \<longrightarrow> next_page_token resp = Inr None)
   \<and> (headers resp ''X-Tracker-Pagination-Total'' \<noteq> None
        \<and> header_int (headers resp) ''X-Tracker-Pagination-Limit'' = Inr l
        \<and> header_int (headers resp) ''X-Tracker-Pagination-Returned'' = Inr r
        \<and> header_int (headers resp) ''X-Tracker-Pagination-Offset'' = Inr off
      \<longrightarrow> (r < l \<longrightarrow> next_page_token resp = Inr None)
        \<and> (r = l \<longrightarrow> next_page_token resp = Inr (Some [(''offset'', JNum (off + l))])))"
  by (auto simp: next_page_token_def Let_def)

theorem next_page_token_cases_witness:
  "headers resp_unpaginated ''X-Tracker-Pagination-Total'' = None
   \<and> next_page_token resp_unpaginated = Inr None
   \<and> headers resp_last_page ''X-Tracker-Pagination-Total'' \<noteq> None
   \<and> header_int (headers resp_last_page) ''X-Tracker-Pagination-Limit'' = Inr 2
   \<and> header_int (headers resp_last_page) ''X-Tracker-Pagination-Returned'' = Inr 1
   \<and> header_int (headers resp_last_page) ''X-Tracker-Pagination-Offset'' = Inr 4
   \<and> next_page_token resp_last_page = Inr None
   \<and> headers resp_full_page ''X-Tracker-Pagination-Total'' \<noteq> None
   \<and> header_int (headers resp_full_page) ''X-Tracker-Pagination-Limit'' = Inr 2
   \<and> header_int (headers resp_full_page) ''X-Tracker-Pagination-Returned'' = Inr 2
   \<and> header_int (headers resp_full_page) ''X-Tracker-Pagination-Offset'' = Inr 2
   \<and> next_page_token resp_full_page = Inr (Some [(''offset'', JNum 4)])"
proof -
  have u: "headers resp_unpaginated ''X-Tracker-Pagination-Total'' = None"
    by (simp add: resp_unpaginated_def)
  have l: "headers resp_last_page ''X-Tracker-Pagination-Total'' \<noteq> None"
    "header_int (headers resp_last_page) ''X-Tracker-Pagination-Limit'' = Inr 2"
    "header_int (headers resp_last_page) ''X-Tracker-Pagination-Returned'' = Inr 1"
    "header_int (headers resp_last_page) ''X-Tracker-Pagination-Offset'' = Inr 4"
    by (simp_all add: resp_last_page_def header_int_def py_int_simps)
  have f: "headers resp_full_page ''X-Tracker-Pagination-Total'' \<noteq> None"
    "header_int (headers resp_full_page) ''X-Tracker-Pagination-Limit'' = Inr 2"
    "header_int (headers resp_full_page) ''X-Tracker-Pagination-Returned'' = Inr 2"
    "header_int (headers resp_full_page) ''X-Tracker-Pagination-Offset'' = Inr 2"
    by (simp_all add: resp_full_page_def header_int_def py_int_simps)
  show ?thesis
    using u l f next_page_token_cases [of resp_unpaginated]
      next_page_token_cases [of resp_last_page 2 1 4]
      next_page_token_cases [of resp_full_page 2 2 2]
    by simp
qed

text \<open>
  C2 as stated fails where the offset header is missing: the total header is there and
  the returned count \<open>1\<close> is below the limit \<open>2\<close>, yet the read of the offset header, which
  comes before the comparison, raises \<open>KeyError\<close>.
\<close>

theorem next_page_token_missing_offset_counterexample:
  "headers resp_no_offset ''X-Tracker-Pagination-Total'' \<noteq> None
   \<and> header_int (headers resp_no_offset) ''X-Tracker-Pagination-Returned'' = Inr 1
   \<and> header_int (headers resp_no_offset) ''X-Tracker-Pagination-Limit'' = Inr 2
   \<and> (1::int) < 2
   \<and> next_page_token resp_no_offset = Inl KeyError
   \<and> next_page_token resp_no_offset \<noteq> Inr None"
  by (simp add: resp_no_offset_def next_page_token_def header_int_def py_int_simps)

lemma py_int_total: "py_int v = Inl ValueError \<or> (\<exists>n. py_int v = Inr n)"
  by (auto simp: py_int_def split: list.splits option.splits)

lemma digit_of_Some: "digit_of c = Some d \<Longrightarrow> c \<in> set ''0123456789''"
proof -
  assume a: "digit_of c = Some d"
  then have "48 \<le> (of_char c :: nat)" "(of_char c :: nat) \<le> 57"
    by (auto simp: digit_of_def Let_def split: if_splits)
  then have "(of_char c :: nat) \<in> {48, 49, 50, 51, 52, 53, 54, 55, 56, 57}"
    by (simp only: insert_iff empty_iff) arith
  then have "(of_char c :: nat) \<in> of_char ` set ''0123456789''"
    by simp
  then obtain e where "e \<in> set ''0123456789''" "(of_char c :: nat) = of_char e"
    by blast
  then show ?thesis by simp
qed

lemma digits_val_chars:
  "digits_val acc cs = Some n \<Longrightarrow> \<forall>c\<in>set cs. c \<in> set ''0123456789_''"
proof (induction acc cs rule: digits_val.induct)
  case (1 acc)
  then show ?case by simp
next
  case (2 acc c cs)
  show ?case
  proof (cases "c = CHR ''_''")
    case True
    with "2.prems" obtain d ds v where cs: "cs = d # ds" and d: "digit_of d = Some v"
      and rest: "digits_val (10 * acc + v) ds = Some n"
      by (auto split: list.splits option.splits)
    from "2.IH"(1) [OF True cs d rest] digit_of_Some [OF d] True cs show ?thesis
      by auto
  next
    case False
    with "2.prems" obtain v where c: "digit_of c = Some v"
      and rest: "digits_val (10 * acc + v) cs = Some n"
      by (auto split: option.splits)
    from "2.IH"(2) [OF False c rest] digit_of_Some [OF c] show ?thesis
      by auto
  qed
qed

lemma nat_literal_chars:
  assumes "nat_literal s = Some n"
  shows "(\<exists>c\<in>set s. c \<in> set ''0123456789'') \<and> (\<forall>c\<in>set s. c \<in> set ''0123456789_'')"
proof -
  from assms obtain c cs v where s: "s = c # cs" and c: "digit_of c = Some v"
    and rest: "digits_val v cs = Some n"
    by (auto simp: nat_literal_def split: list.splits option.splits)
  from digit_of_Some [OF c] digits_val_chars [OF rest] s show ?thesis
    by auto
qed

lemma in_dropWhile: "c \<in> set s \<Longrightarrow> c \<in> set (dropWhile P s) \<or> P c"
  by (induction s) auto

lemma strip_chars: "c \<in> set s \<Longrightarrow> c \<in> set (strip s) \<or> py_isspace c"
  unfolding strip_def using in_dropWhile [of c s py_isspace]
    in_dropWhile [of c "rev (dropWhile py_isspace s)" py_isspace]
  by auto

lemma strip_subset: "c \<in> set (strip s) \<Longrightarrow> c \<in> set s"
proof -
  assume "c \<in> set (strip s)"
  then have "c \<in> set (dropWhile py_isspace (rev (dropWhile py_isspace s)))"
    by (simp add: strip_def)
  then have "c \<in> set (rev (dropWhile py_isspace s))"
    by (rule set_dropWhileD)
  then have "c \<in> set (dropWhile py_isspace s)"
    by simp
  then show ?thesis
    by (rule set_dropWhileD)
qed

lemma py_int_chars:
  assumes "py_int v = Inr n"
  shows "(\<exists>c\<in>set v. c \<in> set ''0123456789'')
     \<and> (\<forall>c\<in>set v. c \<in> set ''0123456789_+-'' \<or> py_isspace c)"
proof -
  from assms obtain c cs where t: "strip v = c # cs"
    by (cases "strip v") (simp_all add: py_int_def)
  have "\<exists>m. (nat_literal cs = Some m \<and> (c = CHR ''-'' \<or> c = CHR ''+''))
      \<or> nat_literal (c # cs) = Some m"
    using assms unfolding py_int_def t by (auto split: if_splits option.splits)
  then obtain m where lit: "(nat_literal cs = Some m \<and> (c = CHR ''-'' \<or> c = CHR ''+''))
      \<or> nat_literal (c # cs) = Some m"
    by blast
  define D where "D = set ''0123456789''"
  define E where "E = set ''0123456789_''"
  define F where "F = set ''0123456789_+-''"
  have sub: "D \<subseteq> F" "E \<subseteq> F" "CHR ''-'' \<in> F" "CHR ''+'' \<in> F"
    by (simp_all add: D_def E_def F_def)
  have body: "(\<exists>d\<in>set (c # cs). d \<in> D) \<and> (\<forall>d\<in>set (c # cs). d \<in> F)"
  proof (cases "nat_literal (c # cs) = Some m")
    case True
    from nat_literal_chars [OF True] sub show ?thesis
      unfolding D_def [symmetric] E_def [symmetric] by blast
  next
    case False
    with lit have l: "nat_literal cs = Some m" and sign: "c = CHR ''-'' \<or> c = CHR ''+''"
      by auto
    from nat_literal_chars [OF l] have "(\<exists>d\<in>set cs. d \<in> D) \<and> (\<forall>d\<in>set cs. d \<in> E)"
      unfolding D_def E_def .
    then obtain d where d: "d \<in> set cs" "d \<in> D" and all: "\<forall>d\<in>set cs. d \<in> E"
      by blast
    from sign sub(3,4) have cF: "c \<in> F" by (elim disjE) simp_all
    have ex: "\<exists>d\<in>set (c # cs). d \<in> D"
      using d by (intro bexI [of _ d]) simp_all
    have "e \<in> F" if "e \<in> set (c # cs)" for e
    proof (cases "e = c")
      case True
      with cF show ?thesis by simp
    next
      case False
      with that have "e \<in> set cs" by simp
      with all have "e \<in> E" by (rule bspec)
      with sub(2) show ?thesis by (rule subsetD)
    qed
    with ex show ?thesis by (intro conjI ballI)
  qed
  show ?thesis
  proof
    from body obtain d where "d \<in> set (strip v)" "d \<in> set ''0123456789''"
      unfolding t D_def by blast
    then show "\<exists>c\<in>set v. c \<in> set ''0123456789''"
      using strip_subset by blast
    show "\<forall>c\<in>set v. c \<in> set ''0123456789_+-'' \<or> py_isspace c"
    proof
      fix d assume "d \<in> set v"
      then have "d \<in> set (strip v) \<or> py_isspace d" by (rule strip_chars)
      with body show "d \<in> set ''0123456789_+-'' \<or> py_isspace d"
        unfolding t F_def by blast
    qed
  qed
qed

text \<open>
  C9. With the total header present, nothing guards the reads of the limit, returned and
  offset headers: \<open>next_page_token\<close> raises exactly when one of the three is missing or
  holds a value \<open>int()\<close> rejects. Read in that order, the first header that fails decides
  the exception: \<open>KeyError\<close> when it is missing, \<open>ValueError\<close> when its value is not an
  integer; a token or \<open>None\<close> is returned only when all three hold integers. \<open>int()\<close>
  either gives an integer or raises \<open>ValueError\<close>, and it accepts only values made of
  digits (at least one), underscores, signs and surrounding whitespace.
\<close>

theorem next_page_token_unguarded:
  assumes "headers resp ''X-Tracker-Pagination-Total'' \<noteq> None"
  shows "((\<exists>e. next_page_token resp = Inl e) =
          (\<not> ((\<exists>v l. headers resp ''X-Tracker-Pagination-Limit'' = Some v \<and> py_int v = Inr l)
              \<and> (\<exists>v r. headers resp ''X-Tracker-Pagination-Returned'' = Some v \<and> py_int v = Inr r)
              \<and> (\<exists>v off. headers resp ''X-Tracker-Pagination-Offset'' = Some v
                    \<and> py_int v = Inr off))))
     \<and> (headers resp ''X-Tracker-Pagination-Limit'' = None \<longrightarrow>
          next_page_token resp = Inl KeyError)
     \<and> (\<forall>v. headers resp ''X-Tracker-Pagination-Limit'' = Some v \<and> py_int v = Inl ValueError \<longrightarrow>
          next_page_token resp = Inl ValueError)
     \<and> (\<forall>vl l. headers resp ''X-Tracker-Pagination-Limit'' = Some vl \<and> py_int vl = Inr l \<longrightarrow>
          (headers resp ''X-Tracker-Pagination-Returned'' = None \<longrightarrow>
             next_page_token resp = Inl KeyError)
          \<and> (\<forall>v. headers resp ''X-Tracker-Pagination-Returned'' = Some v
                 \<and> py_int v = Inl ValueError \<longrightarrow>
               next_page_token resp = Inl ValueError)
          \<and> (\<forall>vr r. headers resp ''X-Tracker-Pagination-Returned'' = Some vr
                 \<and> py_int vr = Inr r \<longrightarrow>
               (headers resp ''X-Tracker-Pagination-Offset'' = None \<longrightarrow>
                  next_page_token resp = Inl KeyError)
               \<and> (\<forall>v. headers resp ''X-Tracker-Pagination-Offset'' = Some v
                      \<and> py_int v = Inl ValueError \<longrightarrow>
                    next_page_token resp = Inl ValueError)
               \<and> (\<forall>vo off. headers resp ''X-Tracker-Pagination-Offset'' = Some vo
                      \<and> py_int vo = Inr off \<longrightarrow>
                    (\<exists>t. next_page_token resp = Inr t))))
     \<and> (\<forall>v. (py_int v = Inl ValueError) = (\<not> (\<exists>n. py_int v = Inr n)))
     \<and> (\<forall>v n. py_int v = Inr n \<longrightarrow>
          (\<exists>c\<in>set v. c \<in> set ''0123456789'')
          \<and> (\<forall>c\<in>set v. c \<in> set ''0123456789_+-'' \<or> py_isspace c))"
proof -
  note npt = next_page_token_present [OF assms]
  let ?L = "headers resp ''X-Tracker-Pagination-Limit''"
  let ?R = "headers resp ''X-Tracker-Pagination-Returned''"
  let ?O = "headers resp ''X-Tracker-Pagination-Offset''"
  have tot: "\<forall>v. (py_int v = Inl ValueError) = (\<not> (\<exists>n. py_int v = Inr n))"
    using py_int_total by (metis Inl_Inr_False)
  have chars: "\<forall>v n. py_int v = Inr n \<longrightarrow>
          (\<exists>c\<in>set v. c \<in> set ''0123456789'')
          \<and> (\<forall>c\<in>set v. c \<in> set ''0123456789_+-'' \<or> py_isspace c)"
    using py_int_chars by blast
  have l0: "?L = None \<longrightarrow> next_page_token resp = Inl KeyError"
    unfolding npt by (simp add: header_int_def)
  have l1: "\<forall>v. ?L = Some v \<and> py_int v = Inl ValueError \<longrightarrow> next_page_token resp = Inl ValueError"
    unfolding npt by (simp add: header_int_def)
  have l2: "\<forall>vl l. ?L = Some vl \<and> py_int vl = Inr l \<longrightarrow>
          (?R = None \<longrightarrow> next_page_token resp = Inl KeyError)
          \<and> (\<forall>v. ?R = Some v \<and> py_int v = Inl ValueError \<longrightarrow>
               next_page_token resp = Inl ValueError)
          \<and> (\<forall>vr r. ?R = Some vr \<and> py_int vr = Inr r \<longrightarrow>
               (?O = None \<longrightarrow> next_page_token resp = Inl KeyError)
               \<and> (\<forall>v. ?O = Some v \<and> py_int v = Inl ValueError \<longrightarrow>
                    next_page_token resp = Inl ValueError)
               \<and> (\<forall>vo off. ?O = Some vo \<and> py_int vo = Inr off \<longrightarrow>
                    (\<exists>t. next_page_token resp = Inr t)))"
    unfolding npt by (simp add: header_int_def)
  have iff: "(\<exists>e. next_page_token resp = Inl e) =
          (\<not> ((\<exists>v l. ?L = Some v \<and> py_int v = Inr l)
              \<and> (\<exists>v r. ?R = Some v \<and> py_int v = Inr r)
              \<and> (\<exists>v off. ?O = Some v \<and> py_int v = Inr off)))"
  proof (cases "(\<exists>v l. ?L = Some v \<and> py_int v = Inr l)
              \<and> (\<exists>v r. ?R = Some v \<and> py_int v = Inr r)
              \<and> (\<exists>v off. ?O = Some v \<and> py_int v = Inr off)")
    case True
    then have "\<exists>t. next_page_token resp = Inr t"
      using l2 by blast
    with True show ?thesis by auto
  next
    case False
    have c: "h = None \<or> (\<exists>v. h = Some v \<and> py_int v = Inl ValueError)
        \<or> (\<exists>v n. h = Some v \<and> py_int v = Inr n)" for h :: "string option"
      using py_int_total by (cases h) auto
    from False c [of ?L] c [of ?R] c [of ?O] l0 l1 l2
    have "\<exists>e. next_page_token resp = Inl e"
      by metis
    with False show ?thesis by simp
  qed
  from iff l0 l1 l2 tot chars show ?thesis
    by (intro conjI)
qed

theorem next_page_token_unguarded_witness:
  "headers resp_total_only ''X-Tracker-Pagination-Total'' \<noteq> None
   \<and> headers resp_total_only ''X-Tracker-Pagination-Limit'' = None
   \<and> next_page_token resp_total_only = Inl KeyError
   \<and> headers resp_limit_not_integer ''X-Tracker-Pagination-Total'' \<noteq> None
   \<and> headers resp_limit_not_integer ''X-Tracker-Pagination-Limit'' = Some ''abc''
   \<and> py_int ''abc'' = Inl ValueError
   \<and> next_page_token resp_limit_not_integer = Inl ValueError
   \<and> headers resp_limit_separator ''X-Tracker-Pagination-Total'' \<noteq> None
   \<and> headers resp_limit_separator ''X-Tracker-Pagination-Limit'' = Some [CHR 0x1C, CHR ''1'']
   \<and> py_int [CHR 0x1C, CHR ''1''] = Inl ValueError
   \<and> next_page_token resp_limit_separator = Inl ValueError
   \<and> headers resp_offset_not_integer ''X-Tracker-Pagination-Total'' \<noteq> None
   \<and> headers resp_offset_not_integer ''X-Tracker-Pagination-Limit'' = Some ''2''
   \<and> py_int ''2'' = Inr 2
   \<and> headers resp_offset_not_integer ''X-Tracker-Pagination-Returned'' = Some ''1''
   \<and> py_int ''1'' = Inr 1
   \<and> headers resp_offset_not_integer ''X-Tracker-Pagination-Offset'' = Some ''4.5''
   \<and> py_int ''4.5'' = Inl ValueError
   \<and> next_page_token resp_offset_not_integer = Inl ValueError
   \<and> headers resp_no_offset ''X-Tracker-Pagination-Total'' \<noteq> None
   \<and> headers resp_no_offset ''X-Tracker-Pagination-Limit'' = Some ''2''
   \<and> headers resp_no_offset ''X-Tracker-Pagination-Returned'' = Some ''1''
   \<and> headers resp_no_offset ''X-Tracker-Pagination-Offset'' = None
   \<and> next_page_token resp_no_offset = Inl KeyError"
proof -
  have t: "headers resp_total_only ''X-Tracker-Pagination-Total'' \<noteq> None"
    "headers resp_limit_not_integer ''X-Tracker-Pagination-Total'' \<noteq> None"
    "headers resp_limit_separator ''X-Tracker-Pagination-Total'' \<noteq> None"
    "headers resp_offset_not_integer ''X-Tracker-Pagination-Total'' \<noteq> None"
    "headers resp_no_offset ''X-Tracker-Pagination-Total'' \<noteq> None"
    by (simp_all add: resp_total_only_def resp_limit_not_integer_def resp_limit_separator_def
        resp_offset_not_integer_def resp_no_offset_def)
  have h: "headers resp_total_only ''X-Tracker-Pagination-Limit'' = None"
    "headers resp_limit_not_integer ''X-Tracker-Pagination-Limit'' = Some ''abc''"
    "headers resp_limit_separator ''X-Tracker-Pagination-Limit'' = Some [CHR 0x1C, CHR ''1'']"
    "headers resp_offset_not_integer ''X-Tracker-Pagination-Limit'' = Some ''2''"
    "headers resp_offset_not_integer ''X-Tracker-Pagination-Returned'' = Some ''1''"
    "headers resp_offset_not_integer ''X-Tracker-Pagination-Offset'' = Some ''4.5''"
    "headers resp_no_offset ''X-Tracker-Pagination-Limit'' = Some ''2''"
    "headers resp_no_offset ''X-Tracker-Pagination-Returned'' = Some ''1''"
    "headers resp_no_offset ''X-Tracker-Pagination-Offset'' = None"
    by (simp_all add: resp_total_only_def resp_limit_not_integer_def resp_limit_separator_def
        resp_offset_not_integer_def resp_no_offset_def)
  have p: "py_int ''abc'' = Inl ValueError" "py_int [CHR 0x1C, CHR ''1''] = Inl ValueError"
    "py_int ''2'' = Inr 2" "py_int ''1'' = Inr 1" "py_int ''4.5'' = Inl ValueError"
    by (simp_all add: py_int_simps)
  have a: "next_page_token resp_total_only = Inl KeyError"
    using next_page_token_unguarded [OF t(1)] h(1) by blast
  have b: "next_page_token resp_limit_not_integer = Inl ValueError"
    using next_page_token_unguarded [OF t(2)] h(2) p(1) by blast
  have c: "next_page_token resp_limit_separator = Inl ValueError"
    using next_page_token_unguarded [OF t(3)] h(3) p(2) by blast
  have d: "next_page_token resp_offset_not_integer = Inl ValueError"
    using next_page_token_unguarded [OF t(4)] h(4,5,6) p(3,4,5) by blast
  have e: "next_page_token resp_no_offset = Inl KeyError"
    using next_page_token_unguarded [OF t(5)] h(7,8,9) p(3,4) by blast
  from t h p a b c d e show ?thesis
    by (intro conjI)
qed

section \<open>Slices\<close>

lemma stream_slices_map: "stream_slices pids = map (\<lambda>p. [(''project_id'', p)]) pids"
  by (induction pids) simp_all

text \<open>
  C7. \<open>stream_slices\<close> yields as many slices as there are project ids, the \<open>k\<close>-th slice
  being \<open>{project_id: p\<^sub>k}\<close> for the \<open>k\<close>-th id; no id gives no slice.
\<close>

theorem stream_slices_one_per_project:
  "length (stream_slices pids) = length pids
   \<and> (\<forall>k < length pids. stream_slices pids ! k = [(''project_id'', pids ! k)])
   \<and> stream_slices [] = []"
  by (simp add: stream_slices_map)

theorem stream_slices_one_per_project_witness:
  "(1::nat) < length [JNum 7, JStr ''p'', JNum 9]
   \<and> length (stream_slices [JNum 7, JStr ''p'', JNum 9]) = 3
   \<and> stream_slices [JNum 7, JStr ''p'', JNum 9] ! 1 = [(''project_id'', JStr ''p'')]"
  using stream_slices_one_per_project [of "[JNum 7, JStr ''p'', JNum 9]"] by simp

section \<open>Project discovery\<close>

text \<open>The loop of \<open>_generate_project_ids\<close> over a listing whose records all carry an
  \<open>id\<close>: the ids whose probe gave a record are appended in order, each failed probe is
  logged, and the listing's own exception, if any, ends the loop after all of them.\<close>

lemma generate_loop_listing:
  "map (\<lambda>r. py_getitem r ''id'') records = map Inr ids \<Longrightarrow>
   generate_loop srv auth records fin acc w =
     ((case fin of
         None \<Rightarrow>
           Inr (acc @ filter (\<lambda>p. case project_probe srv auth p of Inl err \<Rightarrow> False | Inr first \<Rightarrow> True) ids)
       | Some e \<Rightarrow> Inl e),
      w\<lparr> log := log w @
             List.map_filter
               (\<lambda>p. case project_probe srv auth p of Inl err \<Rightarrow> Some err | Inr first \<Rightarrow> None) ids,
         probed := probed w @ ids \<rparr>)"
proof (induction records arbitrary: ids acc w)
  case Nil
  then show ?case by (cases fin) (simp_all add: map_filter_simps)
next
  case (Cons r records)
  from Cons.prems obtain p ps where ids: "ids = p # ps"
    and r: "py_getitem r ''id'' = Inr p"
    and rest: "map (\<lambda>r. py_getitem r ''id'') records = map Inr ps"
    by (cases ids) auto
  show ?case
  proof (cases "project_probe srv auth p")
    case (Inl err)
    then show ?thesis
      using Cons.IH [OF rest] r ids
      by (simp add: check_project_availability_def map_filter_simps split: option.split)
  next
    case (Inr first)
    then show ?thesis
      using Cons.IH [OF rest] r ids
      by (simp add: check_project_availability_def map_filter_simps split: option.split)
  qed
qed

text \<open>
  C3. When the \<open>Projects\<close> listing completes and its records carry the ids \<open>ids\<close>,
  discovery probes every id in order (\<open>probed\<close>), returns in listing order exactly the
  ids whose probe gave a first record, and for every other id (the probe raised, or gave
  no record, which is a \<open>StopIteration\<close>) logs the exception and goes on. Listing
  \<open>[1, 2, 3]\<close> with a probe of \<open>2\<close> that raises gives \<open>[1, 3]\<close> and one logged error.
\<close>

theorem generate_project_ids_accessible:
  assumes "projects_listing srv auth = (records, None)"
    and "map (\<lambda>r. py_getitem r ''id'') records = map Inr ids"
  shows "generate_project_ids srv auth w =
     (Inr (filter (\<lambda>p. case project_probe srv auth p of Inl err \<Rightarrow> False | Inr first \<Rightarrow> True) ids),
      w\<lparr> log := log w @
             List.map_filter
               (\<lambda>p. case project_probe srv auth p of Inl err \<Rightarrow> Some err | Inr first \<Rightarrow> None) ids,
         probed := probed w @ ids \<rparr>)"
  using assms by (simp add: generate_project_ids_def generate_loop_listing)

theorem generate_project_ids_accessible_witness:
  "projects_listing api_three (JStr ''secret'') =
     ([JObj [(''id'', JNum 1), (''name'', JStr ''a'')], JObj [(''id'', JNum 2)], JObj [(''id'', JNum 3)]], None)
   \<and> map (\<lambda>r. py_getitem r ''id'')
        [JObj [(''id'', JNum 1), (''name'', JStr ''a'')], JObj [(''id'', JNum 2)], JObj [(''id'', JNum 3)]]
      = map Inr [JNum 1, JNum 2, JNum 3]
   \<and> generate_project_ids api_three (JStr ''secret'') world0 =
       (Inr [JNum 1, JNum 3],
        \<lparr> log = [HTTPError ''403 Forbidden''], probed = [JNum 1, JNum 2, JNum 3] \<rparr>)"
proof -
  have l: "projects_listing api_three (JStr ''secret'') =
     ([JObj [(''id'', JNum 1), (''name'', JStr ''a'')], JObj [(''id'', JNum 2)], JObj [(''id'', JNum 3)]], None)"
    by (simp add: api_three_def)
  have i: "map (\<lambda>r. py_getitem r ''id'')
        [JObj [(''id'', JNum 1), (''name'', JStr ''a'')], JObj [(''id'', JNum 2)], JObj [(''id'', JNum 3)]]
      = map Inr [JNum 1, JNum 2, JNum 3]"
    by simp
  have p: "project_probe api_three (JStr ''secret'') (JNum 1) = Inr (JStr ''id'')"
    "project_probe api_three (JStr ''secret'') (JNum 2) = Inl (HTTPError ''403 Forbidden'')"
    "project_probe api_three (JStr ''secret'') (JNum 3) = Inr (JStr ''id'')"
    by (simp_all add: api_three_def)
  show ?thesis
    using l i generate_project_ids_accessible [OF l i, of world0]
    by (simp add: p world0_def map_filter_simps)
qed

text \<open>
  C8. \<open>check_connection\<close> returns \<open>(True, None)\<close> whenever discovery returns a list of
  ids, whatever their number, and an exception that leaves discovery leaves
  \<open>check_connection\<close> as well. In particular a listing that completes gives
  \<open>(True, None)\<close> whatever the probes do, since their failures are caught.
\<close>

theorem check_connection_contract:
  "(generate_project_ids srv (get_authenticator config) w = (Inr ids, w')
      \<longrightarrow> check_connection srv config w = (Inr (True, None), w'))
   \<and> (generate_project_ids srv (get_authenticator config) w = (Inl e, w')
      \<longrightarrow> check_connection srv config w = (Inl e, w'))
   \<and> (projects_listing srv (get_authenticator config) = (records, None)
        \<and> map (\<lambda>r. py_getitem r ''id'') records = map Inr listed
      \<longrightarrow> fst (check_connection srv config w) = Inr (True, None))"
  by (simp add: check_connection_def Let_def generate_project_ids_def generate_loop_listing)

theorem check_connection_contract_witness:
  "generate_project_ids api_none_accessible (get_authenticator config_token) world0 =
     (Inr [], \<lparr> log = [StopIteration, HTTPError ''403 Forbidden''], probed = [JNum 1, JNum 2] \<rparr>)
   \<and> check_connection api_none_accessible config_token world0 =
     (Inr (True, None), \<lparr> log = [StopIteration, HTTPError ''403 Forbidden''], probed = [JNum 1, JNum 2] \<rparr>)
   \<and> generate_project_ids api_listing_fails (get_authenticator config_token) world0 =
     (Inl (HTTPError ''500''), \<lparr> log = [], probed = [JNum 1] \<rparr>)
   \<and> check_connection api_listing_fails config_token world0 =
     (Inl (HTTPError ''500''), \<lparr> log = [], probed = [JNum 1] \<rparr>)
   \<and> projects_listing api_none_accessible (get_authenticator config_token) =
       ([JObj [(''id'', JNum 1)], JObj [(''id'', JNum 2)]], None)
   \<and> map (\<lambda>r. py_getitem r ''id'') [JObj [(''id'', JNum 1)], JObj [(''id'', JNum 2)]] =
       map Inr [JNum 1, JNum 2]
   \<and> fst (check_connection api_none_accessible config_token world0) = Inr (True, None)"
proof -
  have g1: "generate_project_ids api_none_accessible (get_authenticator config_token) world0 =
     (Inr [], \<lparr> log = [StopIteration, HTTPError ''403 Forbidden''], probed = [JNum 1, JNum 2] \<rparr>)"
    by (simp add: generate_project_ids_def api_none_accessible_def world0_def
        check_project_availability_def)
  have g2: "generate_project_ids api_listing_fails (get_authenticator config_token) world0 =
     (Inl (HTTPError ''500''), \<lparr> log = [], probed = [JNum 1] \<rparr>)"
    by (simp add: generate_project_ids_def api_listing_fails_def world0_def
        check_project_availability_def)
  have l: "projects_listing api_none_accessible (get_authenticator config_token) =
       ([JObj [(''id'', JNum 1)], JObj [(''id'', JNum 2)]], None)"
    by (simp add: api_none_accessible_def)
  have i: "map (\<lambda>r. py_getitem r ''id'') [JObj [(''id'', JNum 1)], JObj [(''id'', JNum 2)]] =
       map Inr [JNum 1, JNum 2]"
    by simp
  show ?thesis
    using g1 g2 l i
      check_connection_contract [of api_none_accessible config_token world0 "[]"
        "\<lparr> log = [StopIteration, HTTPError ''403 Forbidden''], probed = [JNum 1, JNum 2] \<rparr>"
        "HTTPError ''500''" "[JObj [(''id'', JNum 1)], JObj [(''id'', JNum 2)]]" "[JNum 1, JNum 2]"]
      check_connection_contract [of api_listing_fails config_token world0 "[]"
        "\<lparr> log = [], probed = [JNum 1] \<rparr>" "HTTPError ''500''" "[]" "[]"]
    by simp
qed

section \<open>Activity records\<close>

lemma lift_project_id_obj:
  "lift_project_id (JObj kv) =
     (case map_of kv ''project'' of
        None \<Rightarrow> Inr (JObj kv)
      | Some v \<Rightarrow>
          (case py_getitem v ''id'' of
             Inl e \<Rightarrow> Inl e
           | Inr i \<Rightarrow> Inr (JObj (AList.update ''project_id'' i kv))))"
proof (cases "map_of kv ''project''")
  case None
  then have "''project'' \<notin> set (map fst kv)"
    by (simp add: map_of_eq_None_iff)
  with None show ?thesis by (simp add: lift_project_id_def)
next
  case (Some v)
  then have "''project'' \<in> set (map fst kv)"
    by (metis map_of_eq_None_iff option.distinct(1) set_map)
  with Some show ?thesis by (simp add: lift_project_id_def split: sum.splits)
qed

lemma activity_record_lift:
  "activity_record r \<Longrightarrow> \<exists>r'. lift_project_id r = Inr r'"
  by (cases r) (auto simp: lift_project_id_obj split: option.splits json.splits)

lemma not_activity_record_lift:
  "\<not> activity_record (JObj kv) \<Longrightarrow> \<exists>e. lift_project_id (JObj kv) = Inl e"
  by (auto simp: lift_project_id_obj split: option.splits json.splits)

lemma activity_loop_raise:
  "\<forall>r\<in>set pre. activity_record r \<Longrightarrow> lift_project_id r = Inl e \<Longrightarrow>
   activity_loop (pre @ r # post) fin = (map (\<lambda>r. projr (lift_project_id r)) pre, Some e)"
proof (induction pre)
  case Nil
  then show ?case by simp
next
  case (Cons p pre)
  then obtain p' where "lift_project_id p = Inr p'"
    using activity_record_lift by auto
  with Cons show ?case by simp
qed

lemma activity_loop_total:
  "\<forall>r\<in>set rs. \<exists>kv. r = JObj kv \<Longrightarrow>
   (snd (activity_loop rs None) = None) = (\<forall>r\<in>set rs. activity_record r)"
proof (induction rs)
  case Nil
  then show ?case by simp
next
  case (Cons r rs)
  then obtain kv where r: "r = JObj kv" by auto
  show ?case
  proof (cases "activity_record r")
    case True
    then obtain r' where "lift_project_id r = Inr r'"
      using activity_record_lift by auto
    with True Cons show ?thesis by (auto split: prod.splits)
  next
    case False
    then obtain e where "lift_project_id r = Inl e"
      using not_activity_record_lift r by auto
    with False show ?thesis by simp
  qed
qed

lemma update_new_key: "k \<notin> fst ` set kv \<Longrightarrow> AList.update k v kv = kv @ [(k, v)]"
  by (induction kv) auto

lemma activity_loop_prefix:
  "\<forall>r\<in>set pre. activity_record r \<Longrightarrow>
   activity_loop (pre @ rest) fin =
     (map (\<lambda>r. projr (lift_project_id r)) pre @ fst (activity_loop rest fin),
      snd (activity_loop rest fin))"
proof (induction pre)
  case Nil
  then show ?case by simp
next
  case (Cons p pre)
  then obtain p' where "lift_project_id p = Inr p'"
    using activity_record_lift by auto
  with Cons show ?case by simp
qed

lemma activity_loop_length: "length (fst (activity_loop rs fin)) \<le> length rs"
  by (induction rs) (auto split: sum.splits prod.splits)

text \<open>
  C6. On a body that is an array whose first \<open>n\<close> records meet the precondition, whatever
  follows them, the Activity parser yields at least \<open>n\<close> records and the first \<open>n\<close> are the
  first \<open>n\<close> of the array, in order: a record without a \<open>project\<close> key comes out as it went
  in, and a record with one comes out with \<open>project_id\<close> set to the \<open>id\<close> of its \<open>project\<close>
  sub-object (appended as a new last field when the record had no \<open>project_id\<close>). When all
  records meet the precondition nothing is raised and there is one output per record.
  \<open>{id: 5, project: {id: 42}}\<close> gives \<open>{id: 5, project: {id: 42}, project_id: 42}\<close>, also on
  a page where a later record makes the parser raise.
\<close>

theorem activity_parse_response_lifts_project_id:
  assumes "json_body resp = Inr (JArr records)"
    and "n \<le> length records"
    and "\<forall>r\<in>set (take n records). activity_record r"
  shows "\<exists>out fin. activity_parse_response resp = (out, fin)
     \<and> n \<le> length out \<and> length out \<le> length records
     \<and> (n = length records \<longrightarrow> fin = None)
     \<and> (\<forall>k < n. \<forall>kv. records ! k = JObj kv \<longrightarrow>
          (case map_of kv ''project'' of
             None \<Rightarrow> out ! k = records ! k
           | Some project \<Rightarrow>
               (\<exists>i. py_getitem project ''id'' = Inr i
                  \<and> out ! k = JObj (AList.update ''project_id'' i kv)
                  \<and> (''project_id'' \<notin> fst ` set kv \<longrightarrow>
                       out ! k = JObj (kv @ [(''project_id'', i)])))))"
proof -
  let ?pre = "take n records"
  let ?rest = "drop n records"
  let ?tail = "activity_loop ?rest None"
  let ?out = "map (\<lambda>r. projr (lift_project_id r)) ?pre @ fst ?tail"
  have split: "records = ?pre @ ?rest" by simp
  have "activity_loop (?pre @ ?rest) None = (?out, snd ?tail)"
    using assms(3) by (rule activity_loop_prefix)
  then have loop: "activity_loop records None = (?out, snd ?tail)"
    by simp
  have run: "activity_parse_response resp = (?out, snd ?tail)"
    using assms(1) loop by (simp add: activity_parse_response_def parse_response_def)
  have len_pre: "length ?pre = n"
    using assms(2) by simp
  have lo: "n \<le> length ?out"
    using len_pre by simp
  have hi: "length ?out \<le> length records"
  proof -
    have "length (fst ?tail) \<le> length ?rest" by (rule activity_loop_length)
    with len_pre show ?thesis by simp
  qed
  have fin_ok: "n = length records \<longrightarrow> snd ?tail = None"
    by simp
  have each: "case map_of kv ''project'' of
             None \<Rightarrow> ?out ! k = records ! k
           | Some project \<Rightarrow>
               (\<exists>i. py_getitem project ''id'' = Inr i
                  \<and> ?out ! k = JObj (AList.update ''project_id'' i kv)
                  \<and> (''project_id'' \<notin> fst ` set kv \<longrightarrow>
                       ?out ! k = JObj (kv @ [(''project_id'', i)])))"
    if k: "k < n" and kv: "records ! k = JObj kv" for k kv
  proof -
    have kp: "k < length ?pre" using k len_pre by simp
    then have at: "?out ! k = projr (lift_project_id (records ! k))"
      by (simp add: nth_append)
    have "records ! k \<in> set ?pre"
      using kp by (metis nth_mem nth_take k)
    then have "activity_record (JObj kv)"
      using assms(3) kv by auto
    then show ?thesis
      unfolding at kv
      by (auto simp: lift_project_id_obj update_new_key split: option.splits json.splits)
  qed
  show ?thesis
    using run lo hi fin_ok each by (intro exI [of _ ?out] exI [of _ "snd ?tail"]) simp
qed

theorem activity_parse_response_lifts_project_id_witness:
  "json_body resp_activity =
     Inr (JArr [JObj [(''id'', JNum 5), (''project'', JObj [(''id'', JNum 42)])],
                JObj [(''id'', JNum 6)]])
   \<and> activity_record (JObj [(''id'', JNum 5), (''project'', JObj [(''id'', JNum 42)])])
   \<and> activity_record (JObj [(''id'', JNum 6)])
   \<and> activity_parse_response resp_activity =
       ([JObj [(''id'', JNum 5), (''project'', JObj [(''id'', JNum 42)]), (''project_id'', JNum 42)],
         JObj [(''id'', JNum 6)]], None)
   \<and> json_body resp_activity_then_no_id =
       Inr (JArr [JObj [(''id'', JNum 5), (''project'', JObj [(''id'', JNum 42)])],
                  JObj [(''id'', JNum 6), (''project'', JObj [(''name'', JStr ''x'')])],
                  JObj [(''id'', JNum 7)]])
   \<and> activity_parse_response resp_activity_then_no_id =
       ([JObj [(''id'', JNum 5), (''project'', JObj [(''id'', JNum 42)]), (''project_id'', JNum 42)]],
        Some KeyError)"
proof -
  let ?r0 = "JObj [(''id'', JNum 5), (''project'', JObj [(''id'', JNum 42)])]"
  let ?l0 = "JObj [(''id'', JNum 5), (''project'', JObj [(''id'', JNum 42)]), (''project_id'', JNum 42)]"
  let ?bad = "JObj [(''id'', JNum 6), (''project'', JObj [(''name'', JStr ''x'')])]"
  have b: "json_body resp_activity = Inr (JArr [?r0, JObj [(''id'', JNum 6)]])"
    by (simp add: resp_activity_def)
  have r: "\<forall>r\<in>set (take 2 [?r0, JObj [(''id'', JNum 6)]]). activity_record r"
    by simp
  have n: "(2::nat) \<le> length [?r0, JObj [(''id'', JNum 6)]]"
    by simp
  obtain out fin where out: "activity_parse_response resp_activity = (out, fin)"
    and len: "2 \<le> length out" "length out \<le> length [?r0, JObj [(''id'', JNum 6)]]"
    and fin: "(2::nat) = length [?r0, JObj [(''id'', JNum 6)]] \<longrightarrow> fin = None"
    and each: "\<forall>k<2. \<forall>kv.
       [?r0, JObj [(''id'', JNum 6)]] ! k = JObj kv \<longrightarrow>
       (case map_of kv ''project'' of
          None \<Rightarrow> out ! k = [?r0, JObj [(''id'', JNum 6)]] ! k
        | Some project \<Rightarrow>
            (\<exists>i. py_getitem project ''id'' = Inr i
               \<and> out ! k = JObj (AList.update ''project_id'' i kv)
               \<and> (''project_id'' \<notin> fst ` set kv \<longrightarrow> out ! k = JObj (kv @ [(''project_id'', i)]))))"
    using activity_parse_response_lifts_project_id [OF b n r] by blast
  from each [rule_format, of 0] have o0: "out ! 0 = ?l0"
    by simp
  from each [rule_format, of 1] have o1: "out ! 1 = JObj [(''id'', JNum 6)]"
    by simp
  from len have "length out = 2" by simp
  with o0 o1 have "out = [?l0, JObj [(''id'', JNum 6)]]"
    by (cases out; cases "tl out") auto
  with out fin have first: "activity_parse_response resp_activity = ([?l0, JObj [(''id'', JNum 6)]], None)"
    by simp
  have b': "json_body resp_activity_then_no_id = Inr (JArr [?r0, ?bad, JObj [(''id'', JNum 7)]])"
    by (simp add: resp_activity_then_no_id_def)
  have r': "\<forall>r\<in>set (take 1 [?r0, ?bad, JObj [(''id'', JNum 7)]]). activity_record r"
    by simp
  have n': "(1::nat) \<le> length [?r0, ?bad, JObj [(''id'', JNum 7)]]"
    by simp
  obtain out' fin' where out': "activity_parse_response resp_activity_then_no_id = (out', fin')"
    and each': "\<forall>k<1. \<forall>kv.
       [?r0, ?bad, JObj [(''id'', JNum 7)]] ! k = JObj kv \<longrightarrow>
       (case map_of kv ''project'' of
          None \<Rightarrow> out' ! k = [?r0, ?bad, JObj [(''id'', JNum 7)]] ! k
        | Some project \<Rightarrow>
            (\<exists>i. py_getitem project ''id'' = Inr i
               \<and> out' ! k = JObj (AList.update ''project_id'' i kv)
               \<and> (''project_id'' \<notin> fst ` set kv \<longrightarrow> out' ! k = JObj (kv @ [(''project_id'', i)]))))"
    using activity_parse_response_lifts_project_id [OF b' n' r'] by blast
  from each' [rule_format, of 0] have o0': "out' ! 0 = ?l0"
    by simp
  have run': "activity_parse_response resp_activity_then_no_id = ([?l0], Some KeyError)"
    by (simp add: resp_activity_then_no_id_def activity_parse_response_def parse_response_def
        lift_project_id_def)
  from b first b' run' show ?thesis
    by simp
qed

text \<open>
  C10. On a body that is an array of objects, the Activity parser ends without an
  exception exactly when every record meets the precondition. At the first record whose
  \<open>project\<close> is a mapping without \<open>id\<close> it raises \<open>KeyError\<close>, and at one whose \<open>project\<close> is
  not a mapping \<open>TypeError\<close>, having yielded only the records before it.
\<close>

theorem activity_parse_response_partial:
  assumes "json_body resp = Inr (JArr records)"
    and "\<forall>r\<in>set records. \<exists>kv. r = JObj kv"
  shows "((snd (activity_parse_response resp) = None) = (\<forall>r\<in>set records. activity_record r))
     \<and> (\<forall>pre kv post v.
          records = pre @ JObj kv # post \<and> (\<forall>r\<in>set pre. activity_record r)
          \<and> map_of kv ''project'' = Some v \<and> \<not> activity_record (JObj kv) \<longrightarrow>
          (\<exists>out. activity_parse_response resp =
                   (out, Some (case v of JObj project \<Rightarrow> KeyError | _ \<Rightarrow> TypeError))
                \<and> length out = length pre))"
proof (intro conjI allI impI)
  show "(snd (activity_parse_response resp) = None) = (\<forall>r\<in>set records. activity_record r)"
    using assms by (simp add: activity_parse_response_def parse_response_def activity_loop_total)
next
  fix pre kv post v
  assume h: "records = pre @ JObj kv # post \<and> (\<forall>r\<in>set pre. activity_record r)
          \<and> map_of kv ''project'' = Some v \<and> \<not> activity_record (JObj kv)"
  then have "lift_project_id (JObj kv) =
      Inl (case v of JObj project \<Rightarrow> KeyError | _ \<Rightarrow> TypeError)"
    by (auto simp: lift_project_id_obj split: json.splits option.splits)
  then have "activity_loop (pre @ JObj kv # post) None =
      (map (\<lambda>r. projr (lift_project_id r)) pre,
       Some (case v of JObj project \<Rightarrow> KeyError | _ \<Rightarrow> TypeError))"
    using h activity_loop_raise by blast
  then show "\<exists>out. activity_parse_response resp =
                   (out, Some (case v of JObj project \<Rightarrow> KeyError | _ \<Rightarrow> TypeError))
                \<and> length out = length pre"
    using assms(1) h by (simp add: activity_parse_response_def parse_response_def)
qed

theorem activity_parse_response_partial_witness:
  "json_body resp_activity_no_id =
     Inr (JArr [JObj [(''id'', JNum 5)],
                JObj [(''id'', JNum 6), (''project'', JObj [(''name'', JStr ''x'')])],
                JObj [(''id'', JNum 7)]])
   \<and> \<not> activity_record (JObj [(''id'', JNum 6), (''project'', JObj [(''name'', JStr ''x'')])])
   \<and> snd (activity_parse_response resp_activity_no_id) \<noteq> None
   \<and> activity_parse_response resp_activity_no_id = ([JObj [(''id'', JNum 5)]], Some KeyError)
   \<and> json_body resp_activity_not_mapping =
       Inr (JArr [JObj [(''id'', JNum 6), (''project'', JNum 42)]])
   \<and> \<not> activity_record (JObj [(''id'', JNum 6), (''project'', JNum 42)])
   \<and> activity_parse_response resp_activity_not_mapping = ([], Some TypeError)"
proof -
  have b1: "json_body resp_activity_no_id =
     Inr (JArr [JObj [(''id'', JNum 5)],
                JObj [(''id'', JNum 6), (''project'', JObj [(''name'', JStr ''x'')])],
                JObj [(''id'', JNum 7)]])"
    by (simp add: resp_activity_no_id_def)
  have o1: "\<forall>r\<in>set [JObj [(''id'', JNum 5)],
                JObj [(''id'', JNum 6), (''project'', JObj [(''name'', JStr ''x'')])],
                JObj [(''id'', JNum 7)]]. \<exists>kv. r = JObj kv"
    by simp
  have b2: "json_body resp_activity_not_mapping =
       Inr (JArr [JObj [(''id'', JNum 6), (''project'', JNum 42)]])"
    by (simp add: resp_activity_not_mapping_def)
  have o2: "\<forall>r\<in>set [JObj [(''id'', JNum 6), (''project'', JNum 42)]]. \<exists>kv. r = JObj kv"
    by simp
  note t1 = activity_parse_response_partial [OF b1 o1]
  note t2 = activity_parse_response_partial [OF b2 o2]
  have n1: "snd (activity_parse_response resp_activity_no_id) \<noteq> None"
    using t1 by simp
  from t1 have "\<exists>out. activity_parse_response resp_activity_no_id = (out, Some KeyError)
      \<and> length out = length [JObj [(''id'', JNum 5)]]"
    by (elim conjE allE [of _ "[JObj [(''id'', JNum 5)]]"]
          allE [of _ "[(''id'', JNum 6), (''project'', JObj [(''name'', JStr ''x'')])]"]
          allE [of _ "[JObj [(''id'', JNum 7)]]"] allE [of _ "JObj [(''name'', JStr ''x'')]"])
       simp
  moreover from t2 have "\<exists>out. activity_parse_response resp_activity_not_mapping = (out, Some TypeError)
      \<and> length out = length ([] :: json list)"
    by (elim conjE allE [of _ "[] :: json list"]
          allE [of _ "[(''id'', JNum 6), (''project'', JNum 42)]"]
          allE [of _ "[] :: json list"] allE [of _ "JNum 42"])
       simp
  moreover have "activity_parse_response resp_activity_no_id = ([JObj [(''id'', JNum 5)]], Some KeyError)"
    by (simp add: resp_activity_no_id_def activity_parse_response_def parse_response_def
        lift_project_id_def)
  moreover have "activity_parse_response resp_activity_not_mapping = ([], Some TypeError)"
    by (simp add: resp_activity_not_mapping_def activity_parse_response_def parse_response_def
        lift_project_id_def)
  ultimately show ?thesis
    using b1 b2 n1 by simp
qed

section \<open>The cursor\<close>

lemma read_loop_strings:
  "map (\<lambda>r. py_getitem r (cursor_field (kind s))) rs = map (\<lambda>t. Inr (JStr t)) ts \<Longrightarrow>
   read_loop s rs fin = ((rs, fin), s\<lparr> cursor_value := fold max ts (cursor_value s) \<rparr>)"
proof (induction rs arbitrary: ts s)
  case Nil
  then show ?case by simp
next
  case (Cons r rs)
  from Cons.prems obtain t ts' where ts: "ts = t # ts'"
    and r: "py_getitem r (cursor_field (kind s)) = Inr (JStr t)"
    and rest: "map (\<lambda>r. py_getitem r (cursor_field (kind s))) rs = map (\<lambda>t. Inr (JStr t)) ts'"
    by (cases ts) auto
  let ?s' = "s\<lparr> cursor_value := max t (cursor_value s) \<rparr>"
  have adv: "advance s r = Inr ?s'"
    using r by (simp add: advance_def)
  have "read_loop ?s' rs fin = ((rs, fin), ?s'\<lparr> cursor_value := fold max ts' (cursor_value ?s') \<rparr>)"
    using Cons.IH [of ?s' ts'] rest by simp
  with adv ts show ?case by simp
qed

lemma fold_max_Max: "fold max ts (w :: string) = Max (set (w # ts))"
  by (simp only: Max.set_eq_fold)

lemma cursor_values_unique:
  "map (\<lambda>r. py_getitem r f) rs = map (\<lambda>t. Inr (JStr t)) ts \<Longrightarrow>
   set ts = {t. \<exists>r\<in>set rs. py_getitem r f = Inr (JStr t)}"
proof (induction rs arbitrary: ts)
  case Nil
  then show ?case by simp
next
  case (Cons r rs)
  then obtain t ts' where "ts = t # ts'" "py_getitem r f = Inr (JStr t)"
    "map (\<lambda>r. py_getitem r f) rs = map (\<lambda>t. Inr (JStr t)) ts'"
    by (cases ts) auto
  with Cons.IH [of ts'] show ?case by auto
qed

lemma cursor_values_exist:
  "\<forall>r\<in>set rs. \<exists>t. py_getitem r f = Inr (JStr t) \<Longrightarrow>
   \<exists>ts. map (\<lambda>r. py_getitem r f) rs = map (\<lambda>t. Inr (JStr t)) ts"
proof (induction rs)
  case Nil
  then show ?case by simp
next
  case (Cons r rs)
  then obtain t ts where "py_getitem r f = Inr (JStr t)"
    "map (\<lambda>r. py_getitem r f) rs = map (\<lambda>t. Inr (JStr t)) ts"
    by auto
  then have "map (\<lambda>r. py_getitem r f) (r # rs) = map (\<lambda>t. Inr (JStr t)) (t # ts)"
    by simp
  then show ?case by blast
qed

text \<open>
  C1, as amended. A read pass of an incremental stream over records whose cursor fields
  hold the strings \<open>ts\<close>, whether the underlying read then ends normally or with an
  exception, yields every record and leaves the watermark at the lexicographic maximum of
  the initial watermark and \<open>ts\<close>. The same holds for the records in any other order; the
  watermark after \<open>j\<close> records is at most the one after \<open>k \<ge> j\<close> records, so it never
  decreases; and cursor values \<open>[t2, t1, t3]\<close> with \<open>t1 < t2 < t3\<close> leave the state
  \<open>{cursor_field: max(t3, initial watermark)}\<close>, which is \<open>{cursor_field: t3}\<close> when the
  initial watermark is not above \<open>t3\<close> (a new stream's is the empty string).
\<close>

theorem read_records_watermark:
  assumes "map (\<lambda>r. py_getitem r (cursor_field (kind s))) records = map (\<lambda>t. Inr (JStr t)) ts"
  shows "read_records s (records, fin) =
           ((records, fin), s\<lparr> cursor_value := Max (set (cursor_value s # ts)) \<rparr>)
     \<and> (\<forall>records' fin'. mset records' = mset records \<longrightarrow>
          cursor_value (snd (read_records s (records', fin'))) = Max (set (cursor_value s # ts)))
     \<and> (\<forall>j k fin' fin''. j \<le> k \<longrightarrow>
          cursor_value (snd (read_records s (take j records, fin')))
            \<le> cursor_value (snd (read_records s (take k records, fin''))))
     \<and> cursor_value s \<le> cursor_value (snd (read_records s (records, fin)))
     \<and> (\<forall>t1 t2 t3. ts = [t2, t1, t3] \<and> t1 < t2 \<and> t2 < t3 \<longrightarrow>
          state (snd (read_records s (records, fin))) =
            [(cursor_field (kind s), max t3 (cursor_value s))]
          \<and> (cursor_value s \<le> t3 \<longrightarrow>
               state (snd (read_records s (records, fin))) = [(cursor_field (kind s), t3)]))"
proof (intro conjI allI impI)
  let ?f = "cursor_field (kind s)"
  have full: "read_records s (records, e) =
           ((records, e), s\<lparr> cursor_value := Max (set (cursor_value s # ts)) \<rparr>)" for e
    using read_loop_strings [OF assms] by (simp only: read_records_def fst_conv snd_conv fold_max_Max)
  show "read_records s (records, fin) =
           ((records, fin), s\<lparr> cursor_value := Max (set (cursor_value s # ts)) \<rparr>)"
    by (rule full)
  show "cursor_value s \<le> cursor_value (snd (read_records s (records, fin)))"
    unfolding full by simp
  have prefix: "cursor_value (snd (read_records s (take n records, e))) =
      Max (set (cursor_value s # take n ts))" for n e
  proof -
    have "map (\<lambda>r. py_getitem r ?f) (take n records) = map (\<lambda>t. Inr (JStr t)) (take n ts)"
      using assms by (simp add: take_map [symmetric])
    from read_loop_strings [OF this] show ?thesis
      by (simp only: read_records_def fst_conv snd_conv fold_max_Max) simp
  qed
  {
    fix j k :: nat and fin' fin'' :: "error option"
    assume "j \<le> k"
    then have "set (cursor_value s # take j ts) \<subseteq> set (cursor_value s # take k ts)"
      using set_take_subset_set_take [of j k ts] by auto
    then have "Max (set (cursor_value s # take j ts)) \<le> Max (set (cursor_value s # take k ts))"
      by (intro Max_mono) auto
    then show "cursor_value (snd (read_records s (take j records, fin')))
            \<le> cursor_value (snd (read_records s (take k records, fin'')))"
      by (simp only: prefix)
  }
  {
    fix records' and fin' :: "error option"
    assume "mset records' = mset records"
    then have same: "set records' = set records"
      by (rule mset_eq_setD)
    have "\<forall>r\<in>set records. \<exists>t. py_getitem r ?f = Inr (JStr t)"
      using cursor_values_unique [OF assms] assms
      by (metis (no_types, lifting) imageE image_eqI list.set_map)
    with same obtain ts' where ts': "map (\<lambda>r. py_getitem r ?f) records' = map (\<lambda>t. Inr (JStr t)) ts'"
      using cursor_values_exist [of records' ?f] by auto
    have "set ts' = set ts"
      using cursor_values_unique [OF ts'] cursor_values_unique [OF assms] same by simp
    moreover have "cursor_value (snd (read_records s (records', fin'))) = Max (set (cursor_value s # ts'))"
      using read_loop_strings [OF ts']
      by (simp only: read_records_def fst_conv snd_conv fold_max_Max) simp
    ultimately show "cursor_value (snd (read_records s (records', fin'))) = Max (set (cursor_value s # ts))"
      by simp
  }
  {
    fix t1 t2 t3
    assume h: "ts = [t2, t1, t3] \<and> t1 < t2 \<and> t2 < t3"
    then have m: "Max (set (cursor_value s # ts)) = max t3 (cursor_value s)"
      by (auto simp: max_def)
    from h have "t3 \<noteq> []"
      by auto
    then have ne: "max t3 (cursor_value s) \<noteq> []"
      by (metis Nil_le_Cons list.exhaust max.absorb1 max.commute max_def)
    show g: "state (snd (read_records s (records, fin))) =
        [(cursor_field (kind s), max t3 (cursor_value s))]"
      unfolding full m using ne by (simp add: state_def)
    {
      assume "cursor_value s \<le> t3"
      then have "max t3 (cursor_value s) = t3" by (simp add: max_def)
      with g show "state (snd (read_records s (records, fin))) = [(cursor_field (kind s), t3)]"
        by simp
    }
  }
qed

theorem read_records_watermark_witness:
  "map (\<lambda>r. py_getitem r (cursor_field (kind (init Stories [])))) stories_page =
     map (\<lambda>t. Inr (JStr t)) [''2022-02-01T00:00:00'', ''2022-01-01T00:00:00'', ''2022-03-01T00:00:00'']
   \<and> (''2022-01-01T00:00:00'' :: string) < ''2022-02-01T00:00:00''
   \<and> (''2022-02-01T00:00:00'' :: string) < ''2022-03-01T00:00:00''
   \<and> cursor_value (init Stories []) \<le> ''2022-03-01T00:00:00''
   \<and> state (snd (read_records (init Stories []) (stories_page, None))) =
       [(''updated_at'', ''2022-03-01T00:00:00'')]
   \<and> read_records (init Stories []) (stories_page, Some (HTTPError ''502'')) =
       ((stories_page, Some (HTTPError ''502'')),
        \<lparr> kind = Stories, project_ids = [], cursor_value = ''2022-03-01T00:00:00'' \<rparr>)"
proof -
  have m: "map (\<lambda>r. py_getitem r (cursor_field (kind (init Stories [])))) stories_page =
     map (\<lambda>t. Inr (JStr t)) [''2022-02-01T00:00:00'', ''2022-01-01T00:00:00'', ''2022-03-01T00:00:00'']"
    by (simp add: stories_page_def init_def)
  have o: "(''2022-01-01T00:00:00'' :: string) < ''2022-02-01T00:00:00''"
    "(''2022-02-01T00:00:00'' :: string) < ''2022-03-01T00:00:00''"
    "cursor_value (init Stories []) \<le> ''2022-03-01T00:00:00''"
    by (simp_all add: init_def)
  have k: "cursor_field (kind (init Stories [])) = ''updated_at''"
    by (simp add: init_def)
  note t = read_records_watermark [OF m]
  from t [of None] o
  have a: "state (snd (read_records (init Stories []) (stories_page, None))) =
        [(cursor_field (kind (init Stories [])), ''2022-03-01T00:00:00'')]"
    by blast
  from t [of "Some (HTTPError ''502'')"]
  have "read_records (init Stories []) (stories_page, Some (HTTPError ''502'')) =
       ((stories_page, Some (HTTPError ''502'')),
        (init Stories [])\<lparr> cursor_value :=
           Max (set (cursor_value (init Stories []) #
             [''2022-02-01T00:00:00'', ''2022-01-01T00:00:00'', ''2022-03-01T00:00:00''])) \<rparr>)"
    by blast
  then have b: "read_records (init Stories []) (stories_page, Some (HTTPError ''502'')) =
       ((stories_page, Some (HTTPError ''502'')),
        \<lparr> kind = Stories, project_ids = [], cursor_value = ''2022-03-01T00:00:00'' \<rparr>)"
    by (simp add: init_def)
  from m o a b k show ?thesis by simp
qed

text \<open>
  C1 as stated fails on a stream whose watermark is already above \<open>t3\<close>: seeded with
  \<open>2023-01-01T00:00:00\<close>, a pass over cursor values
  \<open>[2022-02-01, 2022-01-01, 2022-03-01]\<close> leaves the state at the seed, not at \<open>t3\<close>.
\<close>

theorem read_records_seeded_counterexample:
  "map (\<lambda>r. py_getitem r (cursor_field (kind (state_setter (init Stories []) state_2023))))
       stories_page =
     map (\<lambda>t. Inr (JStr t)) [''2022-02-01T00:00:00'', ''2022-01-01T00:00:00'', ''2022-03-01T00:00:00'']
   \<and> (''2022-01-01T00:00:00'' :: string) < ''2022-02-01T00:00:00''
   \<and> (''2022-02-01T00:00:00'' :: string) < ''2022-03-01T00:00:00''
   \<and> state (snd (read_records (state_setter (init Stories []) state_2023) (stories_page, None))) =
       [(''updated_at'', ''2023-01-01T00:00:00'')]
   \<and> state (snd (read_records (state_setter (init Stories []) state_2023) (stories_page, None))) \<noteq>
       [(''updated_at'', ''2022-03-01T00:00:00'')]"
  by (simp add: read_records_def advance_def state_def state_setter_def init_def state_2023_def
      stories_page_def)

text \<open>
  C4, as amended. The state of a new stream is \<open>{}\<close>, and the getter returns \<open>{}\<close> exactly
  when the watermark is the empty string, else \<open>{cursor_field: watermark}\<close>. Setting a state
  that holds a non-empty \<open>v\<close> under the cursor field and reading it back gives
  \<open>{cursor_field: v}\<close>; setting a state without the cursor field resets the watermark to
  \<open>1970-01-01T00:00:00\<close>.
\<close>

theorem state_round_trip:
  "state (init k pids) = []
   \<and> (state s = []) = (cursor_value s = [])
   \<and> (cursor_value s \<noteq> [] \<longrightarrow> state s = [(cursor_field (kind s), cursor_value s)])
   \<and> (map_of m (cursor_field (kind s)) = Some v \<and> v \<noteq> [] \<longrightarrow>
        state (state_setter s m) = [(cursor_field (kind s), v)])
   \<and> (v \<noteq> [] \<longrightarrow>
        state (state_setter s [(cursor_field (kind s), v)]) = [(cursor_field (kind s), v)])
   \<and> (map_of m (cursor_field (kind s)) = None \<longrightarrow>
        cursor_value (state_setter s m) = ''1970-01-01T00:00:00''
        \<and> state (state_setter s m) = [(cursor_field (kind s), ''1970-01-01T00:00:00'')])"
  by (simp add: state_def state_setter_def init_def)

theorem state_round_trip_witness:
  "cursor_value (state_setter (init Stories []) state_2022) \<noteq> []
   \<and> map_of state_2022 (cursor_field (kind (init Stories []))) = Some ''2022-01-01T00:00:00''
   \<and> state (state_setter (init Stories []) state_2022) = [(''updated_at'', ''2022-01-01T00:00:00'')]
   \<and> state (state_setter (init Stories []) [(''updated_at'', ''2022-01-01T00:00:00'')]) =
       [(''updated_at'', ''2022-01-01T00:00:00'')]
   \<and> map_of [] (cursor_field (kind (init Activity []))) = (None :: string option)
   \<and> cursor_value (state_setter (init Activity []) []) = ''1970-01-01T00:00:00''
   \<and> state (state_setter (init Activity []) []) = [(''occurred_at'', ''1970-01-01T00:00:00'')]"
proof -
  have a: "map_of state_2022 (cursor_field (kind (init Stories []))) = Some ''2022-01-01T00:00:00''"
    "cursor_field (kind (init Stories [])) = ''updated_at''"
    "cursor_field (kind (init Activity [])) = ''occurred_at''"
    by (simp_all add: state_2022_def init_def)
  have b: "map_of [] (cursor_field (kind (init Activity []))) = (None :: string option)"
    by simp
  have c: "cursor_value (state_setter (init Stories []) state_2022) \<noteq> []"
    by (simp add: state_setter_def state_2022_def init_def)
  show ?thesis
    using a b c
      state_round_trip [of Stories "[]" "state_setter (init Stories []) state_2022" state_2022
        "''2022-01-01T00:00:00''"]
      state_round_trip [of Stories "[]" "init Stories []" state_2022 "''2022-01-01T00:00:00''"]
      state_round_trip [of Activity "[]" "init Activity []" "[]" "''2022-01-01T00:00:00''"]
    by (simp add: state_setter_def init_def state_2022_def)
qed

text \<open>
  C4 as stated fails at the empty string: after setting \<open>{updated_at: ""}\<close> the watermark
  is falsy and the getter returns \<open>{}\<close>, not the mapping that was set.
\<close>

theorem state_blank_counterexample:
  "map_of state_blank (cursor_field (kind (init Stories []))) = Some []
   \<and> state_blank = [(cursor_field (kind (init Stories [])), [])]
   \<and> state (state_setter (init Stories []) state_blank) = []
   \<and> state (state_setter (init Stories []) state_blank) \<noteq> state_blank"
  by (simp add: state_def state_setter_def init_def state_blank_def)

lemma incremental_request_params_Inr:
  assumes "incremental_request_params s stream_state stream_slice next_token = Inr params"
  shows "map_of params (cursor_filter (kind s)) =
     Some (case map_of stream_state (cursor_field (kind s)) of
             None \<Rightarrow> JNull
           | Some t \<Rightarrow> JStr t)"
proof (cases "request_params stream_state stream_slice next_token")
  case (Inl e)
  with assms show ?thesis by (simp add: incremental_request_params_def)
next
  case (Inr base)
  with assms show ?thesis by (auto simp: incremental_request_params_def update_conv')
qed

text \<open>
  C5, as amended. The cursor filter of every request an incremental stream builds
  (\<open>updated_after\<close> for Stories, \<open>occurred_after\<close> for Activity) is
  \<open>stream_state.get(cursor_field)\<close>: the value of the cursor field (\<open>updated_at\<close>,
  \<open>occurred_at\<close>) in the stream state handed to \<open>request_params\<close>, \<open>None\<close> when that state
  lacks it. It does not depend on the page token nor on the stream's own watermark, which
  the read loop advances, so all pages built from one stream state carry one lower bound.
  When the state handed in is the stream's state at the start of the pass, that bound is
  the watermark of that moment if it is not empty, and \<open>None\<close> if it is (a new stream). A
  token \<open>next_page_token\<close> returns never makes the request fail.
\<close>

theorem incremental_request_params_filter:
  "(\<forall>params. incremental_request_params s stream_state stream_slice next_token = Inr params \<longrightarrow>
       map_of params (cursor_filter (kind s)) =
         Some (case map_of stream_state (cursor_field (kind s)) of
                 None \<Rightarrow> JNull
               | Some t \<Rightarrow> JStr t)
       \<and> (kind s = Stories \<longrightarrow>
            map_of params ''updated_after'' =
              Some (case map_of stream_state ''updated_at'' of None \<Rightarrow> JNull | Some t \<Rightarrow> JStr t))
       \<and> (kind s = Activity \<longrightarrow>
            map_of params ''occurred_after'' =
              Some (case map_of stream_state ''occurred_at'' of None \<Rightarrow> JNull | Some t \<Rightarrow> JStr t)))
   \<and> (next_token = None \<or> next_token = Some [(''offset'', JNum n)] \<longrightarrow>
        (\<exists>params. incremental_request_params s stream_state stream_slice next_token = Inr params))
   \<and> incremental_request_params (s\<lparr> cursor_value := w \<rparr>) stream_state stream_slice next_token =
       incremental_request_params s stream_state stream_slice next_token
   \<and> (stream_state = state s \<longrightarrow>
        (\<forall>params w'. incremental_request_params (s\<lparr> cursor_value := w' \<rparr>) stream_state stream_slice
              next_token = Inr params \<longrightarrow>
           map_of params (cursor_filter (kind s)) =
             Some (if cursor_value s = [] then JNull else JStr (cursor_value s))))"
proof (intro conjI)
  show "\<forall>params. incremental_request_params s stream_state stream_slice next_token = Inr params \<longrightarrow>
       map_of params (cursor_filter (kind s)) =
         Some (case map_of stream_state (cursor_field (kind s)) of
                 None \<Rightarrow> JNull
               | Some t \<Rightarrow> JStr t)
       \<and> (kind s = Stories \<longrightarrow>
            map_of params ''updated_after'' =
              Some (case map_of stream_state ''updated_at'' of None \<Rightarrow> JNull | Some t \<Rightarrow> JStr t))
       \<and> (kind s = Activity \<longrightarrow>
            map_of params ''occurred_after'' =
              Some (case map_of stream_state ''occurred_at'' of None \<Rightarrow> JNull | Some t \<Rightarrow> JStr t))"
  proof (intro allI impI)
    fix params
    assume p: "incremental_request_params s stream_state stream_slice next_token = Inr params"
    note f = incremental_request_params_Inr [OF p]
    show "map_of params (cursor_filter (kind s)) =
         Some (case map_of stream_state (cursor_field (kind s)) of
                 None \<Rightarrow> JNull
               | Some t \<Rightarrow> JStr t)
       \<and> (kind s = Stories \<longrightarrow>
            map_of params ''updated_after'' =
              Some (case map_of stream_state ''updated_at'' of None \<Rightarrow> JNull | Some t \<Rightarrow> JStr t))
       \<and> (kind s = Activity \<longrightarrow>
            map_of params ''occurred_after'' =
              Some (case map_of stream_state ''occurred_at'' of None \<Rightarrow> JNull | Some t \<Rightarrow> JStr t))"
    proof (cases "kind s")
      case Stories
      with f show ?thesis by simp
    next
      case Activity
      with f show ?thesis by simp
    qed
  qed
  show "next_token = None \<or> next_token = Some [(''offset'', JNum n)] \<longrightarrow>
        (\<exists>params. incremental_request_params s stream_state stream_slice next_token = Inr params)"
    by (auto simp: incremental_request_params_def request_params_def)
  show "incremental_request_params (s\<lparr> cursor_value := w \<rparr>) stream_state stream_slice next_token =
       incremental_request_params s stream_state stream_slice next_token"
    by (simp add: incremental_request_params_def split: sum.split)
  show "stream_state = state s \<longrightarrow>
        (\<forall>params w'. incremental_request_params (s\<lparr> cursor_value := w' \<rparr>) stream_state stream_slice
              next_token = Inr params \<longrightarrow>
           map_of params (cursor_filter (kind s)) =
             Some (if cursor_value s = [] then JNull else JStr (cursor_value s)))"
  proof (intro impI allI)
    fix params w'
    assume st: "stream_state = state s"
      and p: "incremental_request_params (s\<lparr> cursor_value := w' \<rparr>) stream_state stream_slice
              next_token = Inr params"
    from incremental_request_params_Inr [OF p] st
    show "map_of params (cursor_filter (kind s)) =
        Some (if cursor_value s = [] then JNull else JStr (cursor_value s))"
      by (simp add: state_def)
  qed
qed

theorem incremental_request_params_filter_witness:
  "incremental_request_params (state_setter (init Stories []) state_2022) state_2022 None None =
     Inr [(''updated_after'', JStr ''2022-01-01T00:00:00'')]
   \<and> incremental_request_params
        ((state_setter (init Stories []) state_2022)\<lparr> cursor_value := ''2022-03-01T00:00:00'' \<rparr>)
        state_2022 None (Some [(''offset'', JNum 2)]) =
     Inr [(''offset'', JNum 2), (''updated_after'', JStr ''2022-01-01T00:00:00'')]
   \<and> state_2022 = state (state_setter (init Stories []) state_2022)
   \<and> map_of [(''offset'', JNum 2), (''updated_after'', JStr ''2022-01-01T00:00:00'')]
        (cursor_filter (kind (state_setter (init Stories []) state_2022))) =
       Some (JStr (cursor_value (state_setter (init Stories []) state_2022)))
   \<and> kind (init Activity []) = Activity
   \<and> incremental_request_params (init Activity []) state_activity_2022 None None =
       Inr [(''occurred_after'', JStr ''2022-01-01T00:00:00'')]
   \<and> map_of [(''occurred_after'', JStr ''2022-01-01T00:00:00'')] ''occurred_after'' =
       Some (JStr ''2022-01-01T00:00:00'')
   \<and> state (init Stories []) = []
   \<and> incremental_request_params (init Stories []) (state (init Stories [])) None None =
       Inr [(''updated_after'', JNull)]"
proof -
  let ?s = "state_setter (init Stories []) state_2022"
  have p1: "incremental_request_params ?s state_2022 None None =
     Inr [(''updated_after'', JStr ''2022-01-01T00:00:00'')]"
    by (simp add: incremental_request_params_def request_params_def state_setter_def init_def
        state_2022_def)
  have p2: "incremental_request_params (?s\<lparr> cursor_value := ''2022-03-01T00:00:00'' \<rparr>)
        state_2022 None (Some [(''offset'', JNum 2)]) =
     Inr [(''offset'', JNum 2), (''updated_after'', JStr ''2022-01-01T00:00:00'')]"
    by (simp add: incremental_request_params_def request_params_def state_setter_def init_def
        state_2022_def)
  have p3: "incremental_request_params (init Activity []) state_activity_2022 None None =
       Inr [(''occurred_after'', JStr ''2022-01-01T00:00:00'')]"
    by (simp add: incremental_request_params_def request_params_def init_def
        state_activity_2022_def)
  have p4: "incremental_request_params (init Stories []) (state (init Stories [])) None None =
       Inr [(''updated_after'', JNull)]"
    by (simp add: incremental_request_params_def request_params_def init_def state_def)
  have st: "state_2022 = state ?s" "cursor_value ?s \<noteq> []" "kind (init Activity []) = Activity"
    "state (init Stories []) = []" "map_of state_activity_2022 ''occurred_at'' = Some ''2022-01-01T00:00:00''"
    by (simp_all add: state_def state_setter_def init_def state_2022_def state_activity_2022_def)
  from incremental_request_params_filter [of ?s state_2022 None "Some [(''offset'', JNum 2)]" 2
      "''2022-03-01T00:00:00''"] st(1)
  have "\<forall>params w'. incremental_request_params (?s\<lparr> cursor_value := w' \<rparr>) state_2022 None
              (Some [(''offset'', JNum 2)]) = Inr params \<longrightarrow>
           map_of params (cursor_filter (kind ?s)) =
             Some (if cursor_value ?s = [] then JNull else JStr (cursor_value ?s))"
    by blast
  from this [rule_format, OF p2] st(2)
  have a: "map_of [(''offset'', JNum 2), (''updated_after'', JStr ''2022-01-01T00:00:00'')]
        (cursor_filter (kind ?s)) = Some (JStr (cursor_value ?s))"
    by simp
  from incremental_request_params_filter [of "init Activity []" state_activity_2022 None None 0 "[]"]
  have "\<forall>params. incremental_request_params (init Activity []) state_activity_2022 None None = Inr params \<longrightarrow>
      (kind (init Activity []) = Activity \<longrightarrow>
         map_of params ''occurred_after'' =
           Some (case map_of state_activity_2022 ''occurred_at'' of None \<Rightarrow> JNull | Some t \<Rightarrow> JStr t))"
    by blast
  from this [rule_format, OF p3 st(3)] st(5)
  have b: "map_of [(''occurred_after'', JStr ''2022-01-01T00:00:00'')] ''occurred_after'' =
       Some (JStr ''2022-01-01T00:00:00'')"
    by simp
  from p1 p2 p3 p4 st(1,3,4) a b show ?thesis
    by (intro conjI)
qed

text \<open>
  C5 as stated fails where no state was recorded: the state of a new stream is \<open>{}\<close> and
  the filter built from it is \<open>None\<close>, not the epoch default, for Stories and for Activity;
  and after a reset to the epoch default by the setter, the filter built from the empty
  state is still \<open>None\<close>.
\<close>

theorem incremental_request_params_epoch_counterexample:
  "state (init Stories []) = []
   \<and> incremental_request_params (init Stories []) (state (init Stories [])) None None =
       Inr [(''updated_after'', JNull)]
   \<and> cursor_value (state_setter (init Stories []) []) = ''1970-01-01T00:00:00''
   \<and> incremental_request_params (state_setter (init Stories []) []) [] None None =
       Inr [(''updated_after'', JNull)]
   \<and> state (init Activity []) = []
   \<and> incremental_request_params (init Activity []) (state (init Activity [])) None None =
       Inr [(''occurred_after'', JNull)]
   \<and> JNull \<noteq> JStr ''1970-01-01T00:00:00''"
  by (simp add: incremental_request_params_def request_params_def state_def state_setter_def
      init_def)

end
